theory Spec2Isabelle
  imports Main "HOL-Library.Word"
begin

section \<open>Conventions\<close>

text \<open>
  Three parts of hadesmem are modelled:
  \<^item> \<^verbatim>\<open>include/memory/hadesmem/detail/protect_guard.hpp\<close> (class \<^verbatim>\<open>ProtectGuard\<close>),
  \<^item> \<^verbatim>\<open>examples/cerberus/direct_input_device_8_w_proxy.cpp\<close> (the DirectInput device proxy),
  \<^item> \<^verbatim>\<open>examples/dump/main.cpp\<close> (the batch dumper).

  C++ exceptions are values: a function that may throw returns \<open>error + 'a\<close> or an
  \<open>error option\<close> next to the state it leaves behind. Member functions take the object
  and return it updated. Data members are named as in the source without the trailing
  underscore (\<open>old_protect_\<close> is \<open>old_protect\<close>).

  \<^verbatim>\<open>HADESMEM_DETAIL_ASSERT\<close> is a debug-only check (it expands to nothing in a release
  build); the model is the release build, so an assertion has no effect here.
  Trace macros write diagnostics only; where their side effect on the thread's last-error
  value matters (the proxy), it is a parameter.
\<close>

section \<open>Protection guard\<close>

subsection \<open>Data\<close>

type_synonym dword = "32 word"
type_synonym pvoid = nat
type_synonym process = nat

text \<open>\<^verbatim>\<open>MEMORY_BASIC_INFORMATION\<close> of the Windows SDK; the field \<^verbatim>\<open>Protect\<close> is
  \<open>mbi_Protect\<close> here, \<open>Protect\<close> being the mutator's name.\<close>

record MEMORY_BASIC_INFORMATION =
  BaseAddress :: pvoid
  AllocationBase :: pvoid
  AllocationProtect :: dword
  RegionSize :: nat
  State :: dword
  mbi_Protect :: dword
  Type :: dword

datatype ProtectGuardType = kRead | kWrite

text \<open>\<^verbatim>\<open>hadesmem::Error\<close> carrying its \<^verbatim>\<open>ErrorString\<close>.\<close>

datatype error = Error string

record ProtectGuard =
  process :: process
  type :: ProtectGuardType
  can_read_or_write :: bool
  old_protect :: dword
  mbi :: MEMORY_BASIC_INFORMATION

definition PAGE_READWRITE :: dword where
  "PAGE_READWRITE = 0x04"

definition PAGE_EXECUTE_READWRITE :: dword where
  "PAGE_EXECUTE_READWRITE = 0x40"

subsection \<open>The collaborators of \<^verbatim>\<open>protect_region.hpp\<close> and \<^verbatim>\<open>query_region.hpp\<close>\<close>

text \<open>
  \<^verbatim>\<open>IsBadProtect\<close>, \<^verbatim>\<open>CanRead\<close>, \<^verbatim>\<open>CanWrite\<close> and \<^verbatim>\<open>Protect\<close> are declared in headers
  that are not modelled; they are parameters. The mutator
  \<open>VirtualProtect\<close> acts on the state \<open>'e\<close> of the target process and either throws or
  returns the previous protection flags. Every theorem below holds for every choice of
  these parameters.
\<close>

record 'e protect_env =
  IsBadProtect :: "MEMORY_BASIC_INFORMATION \<Rightarrow> bool"
  CanRead :: "MEMORY_BASIC_INFORMATION \<Rightarrow> bool"
  CanWrite :: "MEMORY_BASIC_INFORMATION \<Rightarrow> bool"
  VirtualProtect :: "'e \<Rightarrow> process \<Rightarrow> MEMORY_BASIC_INFORMATION \<Rightarrow> dword \<Rightarrow> (error + dword) \<times> 'e"

text \<open>The world a guard runs in: the target's state and the log of every mutator call
  (process, region, requested flags), oldest first.\<close>

record 'e world =
  target :: 'e
  protect_calls :: "(process \<times> MEMORY_BASIC_INFORMATION \<times> dword) list"

definition Protect ::
  "'e protect_env \<Rightarrow> process \<Rightarrow> MEMORY_BASIC_INFORMATION \<Rightarrow> dword \<Rightarrow> 'e world
     \<Rightarrow> (error + dword) \<times> 'e world" where
  "Protect X p m flags w =
     (case VirtualProtect X (target w) p m flags of
        (r, e') \<Rightarrow> (r, \<lparr>target = e', protect_calls = protect_calls w @ [(p, m, flags)]\<rparr>))"

subsection \<open>Construction\<close>

definition bad_protection_error :: error where
  "bad_protection_error = Error ''Attempt to access page with a 'bad' protection mask.''"

text \<open>The member initialiser list of the constructor.\<close>

definition ProtectGuard_init ::
  "process \<Rightarrow> MEMORY_BASIC_INFORMATION \<Rightarrow> ProtectGuardType \<Rightarrow> ProtectGuard" where
  "ProtectGuard_init p m t =
     \<lparr>process = p, type = t, can_read_or_write = False, old_protect = 0, mbi = m\<rparr>"

text \<open>\<^verbatim>\<open>ProtectGuard(Process const&, MEMORY_BASIC_INFORMATION const&, ProtectGuardType)\<close>.
  A throwing constructor yields no object: \<open>Inl\<close>.\<close>

definition ProtectGuard_ctor ::
  "'e protect_env \<Rightarrow> process \<Rightarrow> MEMORY_BASIC_INFORMATION \<Rightarrow> ProtectGuardType \<Rightarrow> 'e world
     \<Rightarrow> (error + ProtectGuard) \<times> 'e world" where
  "ProtectGuard_ctor X p m t w =
     (let g0 = ProtectGuard_init p m t in
      if IsBadProtect X (mbi g0) then (Inl bad_protection_error, w)
      else
        let g1 = g0\<lparr>can_read_or_write :=
                     (if type g0 = kRead then CanRead X (mbi g0) else CanWrite X (mbi g0))\<rparr>
        in if \<not> can_read_or_write g1 then
             (case Protect X p (mbi g1) PAGE_EXECUTE_READWRITE w of
                (Inr old, w1) \<Rightarrow> (Inr (g1\<lparr>old_protect := old\<rparr>), w1)
              | (Inl e1, w1) \<Rightarrow>
                  (case Protect X p (mbi g1) PAGE_READWRITE w1 of
                     (Inr old, w2) \<Rightarrow> (Inr (g1\<lparr>old_protect := old\<rparr>), w2)
                   | (Inl e2, w2) \<Rightarrow> (Inl e2, w2)))
           else (Inr g1, w))"

subsection \<open>Move construction and move assignment\<close>

text \<open>Both act on two objects given by their addresses, \<^verbatim>\<open>this\<close> and \<^verbatim>\<open>&other\<close>; the
  store maps an address to the guard that lives there. The statements run in the order of
  the source, each reading the store the previous one left, so that the two addresses may
  be one object (\<^verbatim>\<open>g = std::move(g)\<close>: \<^verbatim>\<open>operator=\<close> has no test for it). Neither
  function calls anything.\<close>

type_synonym guard_store = "nat \<Rightarrow> ProtectGuard"

definition ProtectGuard_move_ctor :: "nat \<Rightarrow> nat \<Rightarrow> guard_store \<Rightarrow> guard_store" where
  "ProtectGuard_move_ctor this other h0 =
     (let h1 = h0(this :=
                 \<lparr>process = process (h0 other), type = type (h0 other),
                  can_read_or_write = can_read_or_write (h0 other),
                  old_protect = old_protect (h0 other), mbi = mbi (h0 other)\<rparr>)
      in h1(other := (h1 other)\<lparr>old_protect := 0\<rparr>))"

definition ProtectGuard_move_assign :: "nat \<Rightarrow> nat \<Rightarrow> guard_store \<Rightarrow> guard_store" where
  "ProtectGuard_move_assign this other h0 =
     (let h1 = h0(this := (h0 this)\<lparr>process := process (h0 other)\<rparr>);
          h2 = h1(this := (h1 this)\<lparr>type := type (h1 other)\<rparr>);
          h3 = h2(this := (h2 this)\<lparr>can_read_or_write := can_read_or_write (h2 other)\<rparr>);
          h4 = h3(this := (h3 this)\<lparr>old_protect := old_protect (h3 other)\<rparr>);
          h5 = h4(this := (h4 this)\<lparr>mbi := mbi (h4 other)\<rparr>)
      in h5(other := (h5 other)\<lparr>old_protect := 0\<rparr>))"

subsection \<open>Restore, RestoreUnchecked and the destructor\<close>

text \<open>\<^verbatim>\<open>Restore\<close> returns the exception it throws (if any), the guard and the world. When
  \<^verbatim>\<open>Protect\<close> throws, the assignment \<^verbatim>\<open>old_protect_ = 0\<close> is not reached.\<close>

definition Restore ::
  "'e protect_env \<Rightarrow> ProtectGuard \<Rightarrow> 'e world \<Rightarrow> error option \<times> ProtectGuard \<times> 'e world" where
  "Restore X g w =
     (if old_protect g = 0 then (None, g, w)
      else if \<not> can_read_or_write g then
        (case Protect X (process g) (mbi g) (old_protect g) w of
           (Inl e, w1) \<Rightarrow> (Some e, g, w1)
         | (Inr _, w1) \<Rightarrow> (None, g\<lparr>old_protect := 0\<rparr>, w1))
      else (None, g\<lparr>old_protect := 0\<rparr>, w))"

text \<open>\<^verbatim>\<open>RestoreUnchecked\<close> swallows the exception (it is traced and asserted on).\<close>

definition RestoreUnchecked ::
  "'e protect_env \<Rightarrow> ProtectGuard \<Rightarrow> 'e world \<Rightarrow> ProtectGuard \<times> 'e world" where
  "RestoreUnchecked X g w = (case Restore X g w of (_, g1, w1) \<Rightarrow> (g1, w1))"

text \<open>\<^verbatim>\<open>~ProtectGuard\<close>: the object is gone afterwards, the world remains.\<close>

definition ProtectGuard_dtor :: "'e protect_env \<Rightarrow> ProtectGuard \<Rightarrow> 'e world \<Rightarrow> 'e world" where
  "ProtectGuard_dtor X g w = snd (RestoreUnchecked X g w)"

text \<open>The mutator calls a step adds to the log.\<close>

definition new_calls ::
  "'e world \<Rightarrow> 'e world \<Rightarrow> (process \<times> MEMORY_BASIC_INFORMATION \<times> dword) list" where
  "new_calls w w' = drop (length (protect_calls w)) (protect_calls w')"

subsection \<open>Sample collaborators\<close>

text \<open>Concrete parameters for evaluating the model: a region, region predicates that read
  the protection flags, a mutator that refuses every request and one that grants every
  request and reports read-only (\<^verbatim>\<open>PAGE_READONLY\<close>, 2) as the previous protection.\<close>

definition sample_mbi :: "dword \<Rightarrow> MEMORY_BASIC_INFORMATION" where
  "sample_mbi prot =
     \<lparr>BaseAddress = 4096, AllocationBase = 4096, AllocationProtect = prot,
      RegionSize = 4096, State = 0x1000, mbi_Protect = prot, Type = 0x20000\<rparr>"

definition refuse_all ::
  "unit \<Rightarrow> process \<Rightarrow> MEMORY_BASIC_INFORMATION \<Rightarrow> dword \<Rightarrow> (error + dword) \<times> unit" where
  "refuse_all e p m flags = (Inl (Error ''VirtualProtectEx failed.''), e)"

definition grant_all ::
  "unit \<Rightarrow> process \<Rightarrow> MEMORY_BASIC_INFORMATION \<Rightarrow> dword \<Rightarrow> (error + dword) \<times> unit" where
  "grant_all e p m flags = (Inr 2, e)"

definition sample_env ::
  "(unit \<Rightarrow> process \<Rightarrow> MEMORY_BASIC_INFORMATION \<Rightarrow> dword \<Rightarrow> (error + dword) \<times> unit)
     \<Rightarrow> unit protect_env" where
  "sample_env vp =
     \<lparr>IsBadProtect = (\<lambda>m. mbi_Protect m = 0x01),
      CanRead = (\<lambda>m. mbi_Protect m \<in> {0x02, 0x04}),
      CanWrite = (\<lambda>m. mbi_Protect m = 0x04),
      VirtualProtect = vp\<rparr>"

definition world0 :: "unit world" where
  "world0 = \<lparr>target = (), protect_calls = []\<rparr>"

definition sample_guard :: ProtectGuard where
  "sample_guard =
     \<lparr>process = 7, type = kWrite, can_read_or_write = False, old_protect = 0x02,
      mbi = sample_mbi 0x02\<rparr>"

definition other_guard :: ProtectGuard where
  "other_guard =
     \<lparr>process = 7, type = kWrite, can_read_or_write = False, old_protect = 0x20,
      mbi = sample_mbi 0x20\<rparr>"

subsection \<open>Callers of the guard\<close>

text \<open>A caller that calls \<^verbatim>\<open>Restore\<close> twice on one guard, catching what the first call
  throws; both outcomes are returned.\<close>

definition Restore_twice ::
  "'e protect_env \<Rightarrow> ProtectGuard \<Rightarrow> 'e world
     \<Rightarrow> (error option \<times> error option) \<times> ProtectGuard \<times> 'e world" where
  "Restore_twice X g w =
     (case Restore X g w of
        (r1, g1, w1) \<Rightarrow> (case Restore X g1 w1 of (r2, g2, w2) \<Rightarrow> ((r1, r2), g2, w2)))"

text \<open>What can happen to the two objects of a move assignment afterwards: \<^verbatim>\<open>Restore\<close> on
  either (an exception is caught by the caller) and the destructor of either. The objects
  are given by their addresses, which may be equal.\<close>

datatype guard_op = RestoreThis | RestoreOther | DestroyThis | DestroyOther

fun later_op ::
  "'e protect_env \<Rightarrow> nat \<Rightarrow> nat \<Rightarrow> guard_op \<Rightarrow> guard_store \<times> 'e world
     \<Rightarrow> guard_store \<times> 'e world" where
  "later_op X this other RestoreThis (h, w) =
     (case Restore X (h this) w of (_, g1, w1) \<Rightarrow> (h(this := g1), w1))"
| "later_op X this other RestoreOther (h, w) =
     (case Restore X (h other) w of (_, g1, w1) \<Rightarrow> (h(other := g1), w1))"
| "later_op X this other DestroyThis (h, w) =
     (case RestoreUnchecked X (h this) w of (g1, w1) \<Rightarrow> (h(this := g1), w1))"
| "later_op X this other DestroyOther (h, w) =
     (case RestoreUnchecked X (h other) w of (g1, w1) \<Rightarrow> (h(other := g1), w1))"

fun later_ops ::
  "'e protect_env \<Rightarrow> nat \<Rightarrow> nat \<Rightarrow> guard_op list \<Rightarrow> guard_store \<times> 'e world
     \<Rightarrow> guard_store \<times> 'e world" where
  "later_ops X this other [] c = c"
| "later_ops X this other (a # as) c = later_ops X this other as (later_op X this other a c)"

definition assign_then ::
  "'e protect_env \<Rightarrow> guard_op list \<Rightarrow> nat \<Rightarrow> nat \<Rightarrow> guard_store \<Rightarrow> 'e world
     \<Rightarrow> guard_store \<times> 'e world" where
  "assign_then X ops this other h w =
     later_ops X this other ops (ProtectGuard_move_assign this other h, w)"

text \<open>A store with \<open>other_guard\<close> at address 2 and \<open>sample_guard\<close> everywhere else.\<close>

definition sample_store :: guard_store where
  "sample_store = (\<lambda>a. if a = 2 then other_guard else sample_guard)"

section \<open>DirectInput device proxy\<close>

subsection \<open>Data\<close>

type_synonym hresult = "32 word"
type_synonym ulong = "32 word"
type_synonym ptr = nat
type_synonym iid = nat

text \<open>\<^verbatim>\<open>SUCCEEDED(hr)\<close> is \<^verbatim>\<open>((HRESULT)(hr)) >= 0\<close>, an \<^verbatim>\<open>HRESULT\<close> being a signed 32-bit
  value.\<close>

definition SUCCEEDED :: "hresult \<Rightarrow> bool" where
  "SUCCEEDED hr = (0 \<le> sint hr)"

definition E_NOINTERFACE :: hresult where
  "E_NOINTERFACE = 0x80004002"

text \<open>What a proxy call does, in order: changes of \<^verbatim>\<open>refs_\<close> (with the new value), the
  \<^verbatim>\<open>Cleanup\<close> hook, calls forwarded to the wrapped device (with the count or result
  returned), the release of a foreign interface pointer, and \<^verbatim>\<open>delete this\<close>.\<close>

datatype event =
    RefsIncremented int
  | RefsDecremented int
  | CleanupRun
  | WrappedQueryInterface iid hresult ptr
  | WrappedAddRef ulong
  | WrappedRelease ulong
  | WrappedGetDeviceState hresult
  | WrappedGetDeviceData hresult
  | ForeignRelease ptr
  | ProxyDeleted

text \<open>The world of a proxy call: the calling thread's last-error value
  (\<^verbatim>\<open>GetLastError\<close>), the state \<open>'d\<close> of everything behind the wrapped interface (the
  device, the caller's buffers) and the log of events, oldest first.\<close>

record 'd pworld =
  thread_last_error :: dword
  wrapped :: 'd
  events :: "event list"

text \<open>The proxy object: \<^verbatim>\<open>refs_\<close> (printed with \<^verbatim>\<open>%lld\<close>: a signed 64-bit count, whose
  overflow is undefined behaviour and out of reach, hence \<open>int\<close>), \<^verbatim>\<open>device_\<close> and the
  object's own address \<^verbatim>\<open>this\<close>.\<close>

record DirectInputDevice8WProxy =
  refs :: int
  device :: ptr
  this :: ptr

subsection \<open>Collaborators of the proxy\<close>

text \<open>
  The wrapped \<^verbatim>\<open>IDirectInputDevice8W\<close>, a foreign \<^verbatim>\<open>IUnknown\<close>, the trace macros and the
  callback lists are parameters. A call takes the state behind the interface and the
  thread's last-error value and returns both, changed as it likes.
  \<open>wrapped_QueryInterface\<close> also takes the caller's \<^verbatim>\<open>*obj\<close> and returns the new one.
  \<open>trace\<close> is the effect of one trace statement (its format string given) on the
  last-error value; \<open>OnGetDeviceState\<close> and \<open>OnGetDeviceData\<close> are the \<^verbatim>\<open>Run\<close> of the
  registered callbacks, which may replace the result.
\<close>

record 'd proxy_env =
  wrapped_QueryInterface :: "iid \<Rightarrow> ptr \<Rightarrow> 'd \<Rightarrow> dword \<Rightarrow> (hresult \<times> ptr) \<times> 'd \<times> dword"
  wrapped_AddRef :: "'d \<Rightarrow> dword \<Rightarrow> ulong \<times> 'd \<times> dword"
  wrapped_Release :: "'d \<Rightarrow> dword \<Rightarrow> ulong \<times> 'd \<times> dword"
  wrapped_GetDeviceState :: "dword \<Rightarrow> ptr \<Rightarrow> 'd \<Rightarrow> dword \<Rightarrow> hresult \<times> 'd \<times> dword"
  wrapped_GetDeviceData ::
    "dword \<Rightarrow> ptr \<Rightarrow> ptr \<Rightarrow> dword \<Rightarrow> 'd \<Rightarrow> dword \<Rightarrow> hresult \<times> 'd \<times> dword"
  foreign_Release :: "ptr \<Rightarrow> 'd \<Rightarrow> dword \<Rightarrow> ulong \<times> 'd \<times> dword"
  trace :: "string \<Rightarrow> dword \<Rightarrow> dword"
  OnGetDeviceState :: "dword \<Rightarrow> ptr \<Rightarrow> hresult \<Rightarrow> 'd \<Rightarrow> dword \<Rightarrow> hresult \<times> 'd \<times> dword"
  OnGetDeviceData ::
    "dword \<Rightarrow> ptr \<Rightarrow> ptr \<Rightarrow> dword \<Rightarrow> hresult \<Rightarrow> ptr \<Rightarrow> bool \<Rightarrow> 'd \<Rightarrow> dword
       \<Rightarrow> hresult \<times> 'd \<times> dword"

definition log_event :: "event \<Rightarrow> 'd pworld \<Rightarrow> 'd pworld" where
  "log_event ev w = w\<lparr>events := events w @ [ev]\<rparr>"

definition do_trace :: "'d proxy_env \<Rightarrow> string \<Rightarrow> 'd pworld \<Rightarrow> 'd pworld" where
  "do_trace X msg w = w\<lparr>thread_last_error := trace X msg (thread_last_error w)\<rparr>"

text \<open>Running a collaborator on the world.\<close>

definition call_out :: "('d \<Rightarrow> dword \<Rightarrow> 'r \<times> 'd \<times> dword) \<Rightarrow> 'd pworld \<Rightarrow> 'r \<times> 'd pworld" where
  "call_out f w =
     (case f (wrapped w) (thread_last_error w) of
        (r, d, le) \<Rightarrow> (r, w\<lparr>thread_last_error := le, wrapped := d\<rparr>))"

text \<open>A call on the wrapped device or on a foreign object: the call is made and, with
  what it returned, entered in the log.\<close>

definition call_logged ::
  "('d \<Rightarrow> dword \<Rightarrow> 'r \<times> 'd \<times> dword) \<Rightarrow> ('r \<Rightarrow> event) \<Rightarrow> 'd pworld \<Rightarrow> 'r \<times> 'd pworld" where
  "call_logged f ev w = (case call_out f w of (r, w1) \<Rightarrow> (r, log_event (ev r) w1))"

subsection \<open>LastErrorPreserver\<close>

text \<open>Modelled from the spec: \<^verbatim>\<open>hadesmem::detail::LastErrorPreserver\<close>
  (\<^verbatim>\<open>last_error_preserver.hpp\<close>) is not among the modelled files. The spec describes it as an
  explicit scoped save/restore object for the thread-local error state, acquired on entry and
  released on every exit path: the constructor takes a snapshot of the last-error value,
  \<^verbatim>\<open>Revert\<close> writes the snapshot back, \<^verbatim>\<open>Update\<close> takes the snapshot again, and the
  destructor reverts.\<close>

record LastErrorPreserver =
  last_error :: dword

definition LastErrorPreserver_ctor :: "'d pworld \<Rightarrow> LastErrorPreserver" where
  "LastErrorPreserver_ctor w = \<lparr>last_error = thread_last_error w\<rparr>"

definition Revert :: "LastErrorPreserver \<Rightarrow> 'd pworld \<Rightarrow> 'd pworld" where
  "Revert lep w = w\<lparr>thread_last_error := last_error lep\<rparr>"

definition Update :: "LastErrorPreserver \<Rightarrow> 'd pworld \<Rightarrow> LastErrorPreserver" where
  "Update lep w = lep\<lparr>last_error := thread_last_error w\<rparr>"

definition LastErrorPreserver_dtor :: "LastErrorPreserver \<Rightarrow> 'd pworld \<Rightarrow> 'd pworld" where
  "LastErrorPreserver_dtor lep w = Revert lep w"

subsection \<open>The member functions\<close>

text \<open>\<^verbatim>\<open>QueryInterface(riid, obj)\<close> returns the \<^verbatim>\<open>HRESULT\<close> and the final \<^verbatim>\<open>*obj\<close>;
  \<open>obj0\<close> is \<^verbatim>\<open>*obj\<close> on entry.\<close>

definition QueryInterface ::
  "'d proxy_env \<Rightarrow> iid \<Rightarrow> ptr \<Rightarrow> DirectInputDevice8WProxy \<Rightarrow> 'd pworld
     \<Rightarrow> (hresult \<times> ptr) \<times> DirectInputDevice8WProxy \<times> 'd pworld" where
  "QueryInterface X riid obj0 p w0 =
     (let lep0 = LastErrorPreserver_ctor w0;
          w1 = Revert lep0 w0
      in case call_logged (wrapped_QueryInterface X riid obj0)
                (\<lambda>(ret, obj). WrappedQueryInterface riid ret obj) w1 of
        ((ret, obj), w2) \<Rightarrow>
          let lep = Update lep0 w2
          in if SUCCEEDED ret then
               let w3 = do_trace X ''Succeeded.'' w2
               in if obj = device p then
                    let p1 = p\<lparr>refs := refs p + 1\<rparr>;
                        w4 = log_event (RefsIncremented (refs p1)) w3
                    in ((ret, this p1), p1, LastErrorPreserver_dtor lep w4)
                  else
                    let w4 = do_trace X ''WARNING! Unhandled interface.'' w3
                    in case call_logged (foreign_Release X obj) (\<lambda>r. ForeignRelease obj) w4 of
                      (_, w5) \<Rightarrow> ((E_NOINTERFACE, obj), p, LastErrorPreserver_dtor lep w5)
             else
               let w3 = do_trace X ''Failed.'' w2
               in ((ret, obj), p, LastErrorPreserver_dtor lep w3))"

definition AddRef ::
  "'d proxy_env \<Rightarrow> DirectInputDevice8WProxy \<Rightarrow> 'd pworld
     \<Rightarrow> ulong \<times> DirectInputDevice8WProxy \<times> 'd pworld" where
  "AddRef X p w0 =
     (let p1 = p\<lparr>refs := refs p + 1\<rparr>;
          w1 = log_event (RefsIncremented (refs p1)) w0
      in case call_logged (wrapped_AddRef X) WrappedAddRef w1 of
        (ret, w2) \<Rightarrow>
          let w3 = do_trace X ''Internal refs: [%lu]. External refs: [%lld].'' w2
          in (ret, p1, w3))"

definition Cleanup :: "'d proxy_env \<Rightarrow> 'd pworld \<Rightarrow> 'd pworld" where
  "Cleanup X w = do_trace X ''Called.'' (log_event CleanupRun w)"

text \<open>\<^verbatim>\<open>Release\<close> returns the wrapped count, the proxy if it still exists (\<open>None\<close> after
  \<^verbatim>\<open>delete this\<close>) and the world.\<close>

definition Release ::
  "'d proxy_env \<Rightarrow> DirectInputDevice8WProxy \<Rightarrow> 'd pworld
     \<Rightarrow> ulong \<times> DirectInputDevice8WProxy option \<times> 'd pworld" where
  "Release X p w0 =
     (let lep0 = LastErrorPreserver_ctor w0;
          p1 = p\<lparr>refs := refs p - 1\<rparr>;
          w1 = log_event (RefsDecremented (refs p1)) w0;
          w2 = (if refs p1 = 0 then Cleanup X w1 else w1);
          w3 = Revert lep0 w2
      in case call_logged (wrapped_Release X) WrappedRelease w3 of
        (ret, w4) \<Rightarrow>
          let lep = Update lep0 w4;
              w5 = do_trace X ''Internal refs: [%lu]. External refs: [%lld].'' w4
          in if ret = 0 then (ret, None, LastErrorPreserver_dtor lep (log_event ProxyDeleted w5))
             else (ret, Some p1, LastErrorPreserver_dtor lep w5))"

definition GetDeviceState ::
  "'d proxy_env \<Rightarrow> dword \<Rightarrow> ptr \<Rightarrow> DirectInputDevice8WProxy \<Rightarrow> 'd pworld
     \<Rightarrow> hresult \<times> 'd pworld" where
  "GetDeviceState X len_data data p w0 =
     (let lep0 = LastErrorPreserver_ctor w0;
          w1 = Revert lep0 w0
      in case call_logged (wrapped_GetDeviceState X len_data data) WrappedGetDeviceState w1 of
        (ret, w2) \<Rightarrow>
          let lep = Update lep0 w2
          in case call_out (OnGetDeviceState X len_data data ret) w2 of
            (ret1, w3) \<Rightarrow> (ret1, LastErrorPreserver_dtor lep w3))"

definition GetDeviceData ::
  "'d proxy_env \<Rightarrow> dword \<Rightarrow> ptr \<Rightarrow> ptr \<Rightarrow> dword \<Rightarrow> DirectInputDevice8WProxy \<Rightarrow> 'd pworld
     \<Rightarrow> hresult \<times> 'd pworld" where
  "GetDeviceData X len_object_data rgdod in_out flags p w0 =
     (let lep0 = LastErrorPreserver_ctor w0;
          w1 = Revert lep0 w0
      in case call_logged (wrapped_GetDeviceData X len_object_data rgdod in_out flags)
                WrappedGetDeviceData w1 of
        (ret, w2) \<Rightarrow>
          let lep = Update lep0 w2
          in case call_out
                    (OnGetDeviceData X len_object_data rgdod in_out flags ret (device p) False)
                    w2 of
            (ret1, w3) \<Rightarrow> (ret1, LastErrorPreserver_dtor lep w3))"

text \<open>The events a call adds to the log.\<close>

definition new_events :: "'d pworld \<Rightarrow> 'd pworld \<Rightarrow> event list" where
  "new_events w w' = drop (length (events w)) (events w')"

subsection \<open>Executions of a proxy\<close>

text \<open>One call of a client on a live proxy, with what the client gets back: the count
  returned by \<^verbatim>\<open>AddRef\<close> and \<^verbatim>\<open>Release\<close>, the \<^verbatim>\<open>HRESULT\<close> and \<^verbatim>\<open>*obj\<close> of
  \<^verbatim>\<open>QueryInterface\<close>. The proxy is \<open>None\<close> after \<^verbatim>\<open>delete this\<close>.\<close>

datatype proxy_call = CallAddRef | CallRelease | CallQueryInterface iid ptr

datatype call_result = Count ulong | Queried hresult ptr

fun proxy_do ::
  "'d proxy_env \<Rightarrow> proxy_call \<Rightarrow> DirectInputDevice8WProxy \<Rightarrow> 'd pworld
     \<Rightarrow> call_result \<times> DirectInputDevice8WProxy option \<times> 'd pworld" where
  "proxy_do X CallAddRef p w = (case AddRef X p w of (r, p1, w1) \<Rightarrow> (Count r, Some p1, w1))"
| "proxy_do X CallRelease p w = (case Release X p w of (r, po, w1) \<Rightarrow> (Count r, po, w1))"
| "proxy_do X (CallQueryInterface riid obj0) p w =
     (case QueryInterface X riid obj0 p w of
        ((hr, obj), p1, w1) \<Rightarrow> (Queried hr obj, Some p1, w1))"

text \<open>A sequence of calls. A call on a deleted proxy is a use after free: such a sequence
  is no execution (\<open>None\<close>).\<close>

fun proxy_run ::
  "'d proxy_env \<Rightarrow> proxy_call list \<Rightarrow> DirectInputDevice8WProxy option \<times> 'd pworld
     \<Rightarrow> (DirectInputDevice8WProxy option \<times> 'd pworld) option" where
  "proxy_run X [] s = Some s"
| "proxy_run X (c # cs) (None, w) = None"
| "proxy_run X (c # cs) (Some p, w) =
     (case proxy_do X c p w of (r, po, w1) \<Rightarrow> proxy_run X cs (po, w1))"

text \<open>The number of times the external count arrived at zero.\<close>

definition zero_transitions :: "event list \<Rightarrow> nat" where
  "zero_transitions evs =
     length (filter (\<lambda>ev. ev = RefsDecremented 0 \<or> ev = RefsIncremented 0) evs)"

text \<open>The client's own ledger of the references it holds on the proxy. It is kept from
  what the client does and sees, never from the proxy's \<^verbatim>\<open>refs_\<close>: one more for each
  \<^verbatim>\<open>AddRef\<close> and for each \<^verbatim>\<open>QueryInterface\<close> that returned success, one less for each
  \<^verbatim>\<open>Release\<close>.\<close>

fun ledger_after :: "int \<Rightarrow> proxy_call \<Rightarrow> call_result \<Rightarrow> int" where
  "ledger_after n CallAddRef r = n + 1"
| "ledger_after n CallRelease r = n - 1"
| "ledger_after n (CallQueryInterface riid obj0) (Queried hr obj) =
     (if SUCCEEDED hr then n + 1 else n)"
| "ledger_after n (CallQueryInterface riid obj0) (Count r) = n"

text \<open>The ledger after a sequence of calls, starting from \<open>n\<close> references.\<close>

fun client_ledger ::
  "'d proxy_env \<Rightarrow> int \<Rightarrow> proxy_call list \<Rightarrow> DirectInputDevice8WProxy option \<times> 'd pworld
     \<Rightarrow> int" where
  "client_ledger X n [] s = n"
| "client_ledger X n (c # cs) (None, w) = n"
| "client_ledger X n (c # cs) (Some p, w) =
     (case proxy_do X c p w of (r, po, w1) \<Rightarrow> client_ledger X (ledger_after n c r) cs (po, w1))"

text \<open>A client follows the reference-counting protocol when it makes each call while its
  ledger is positive, on a proxy that exists.\<close>

fun follows_protocol ::
  "'d proxy_env \<Rightarrow> int \<Rightarrow> proxy_call list \<Rightarrow> DirectInputDevice8WProxy option \<times> 'd pworld
     \<Rightarrow> bool" where
  "follows_protocol X n [] s = True"
| "follows_protocol X n (c # cs) (None, w) = False"
| "follows_protocol X n (c # cs) (Some p, w) =
     (0 < n \<and>
      (case proxy_do X c p w of
         (r, po, w1) \<Rightarrow> follows_protocol X (ledger_after n c r) cs (po, w1)))"

subsection \<open>Sample collaborators\<close>

text \<open>The state behind the interface is two reference counts: the wrapped device's and
  that of one other object. The device (address 100) answers every identity query with
  itself, taking a reference, except for interface 9, which it answers with the other
  object (address 200), taking a reference on that. Every call sets the last-error value to
  5; a trace leaves it 0; callbacks set it to 6.\<close>

definition counting_device :: "(nat \<times> nat) proxy_env" where
  "counting_device =
     \<lparr>wrapped_QueryInterface =
        (\<lambda>riid obj0 d le. if riid = 9 then ((0, 200), (fst d, Suc (snd d)), 5)
                           else ((0, 100), (Suc (fst d), snd d), 5)),
      wrapped_AddRef = (\<lambda>d le. (of_nat (Suc (fst d)), (Suc (fst d), snd d), 5)),
      wrapped_Release = (\<lambda>d le. (of_nat (fst d - 1), (fst d - 1, snd d), 5)),
      wrapped_GetDeviceState = (\<lambda>len_data data d le. (0, d, 5)),
      wrapped_GetDeviceData = (\<lambda>len_object_data rgdod in_out flags d le. (0, d, 5)),
      foreign_Release = (\<lambda>obj d le. (of_nat (snd d - 1), (fst d, snd d - 1), 5)),
      trace = (\<lambda>msg le. 0),
      OnGetDeviceState = (\<lambda>len_data data ret d le. (ret, d, 6)),
      OnGetDeviceData = (\<lambda>len_object_data rgdod in_out flags ret dev b d le. (ret, d, 6))\<rparr>"

definition sample_proxy :: DirectInputDevice8WProxy where
  "sample_proxy = \<lparr>refs = 1, device = 100, this = 300\<rparr>"

text \<open>The wrapped device starts with the given count, the other object with the count 1,
  and the last-error value is 3.\<close>

definition pworld0 :: "nat \<Rightarrow> (nat \<times> nat) pworld" where
  "pworld0 n = \<lparr>thread_last_error = 3, wrapped = (n, 1), events = []\<rparr>"

section \<open>Batch dumper\<close>

subsection \<open>Data and output\<close>

text \<open>What \<^verbatim>\<open>main.cpp\<close> writes to its output stream through \<^verbatim>\<open>WriteNewline\<close>,
  \<^verbatim>\<open>WriteNormal\<close>, \<^verbatim>\<open>WriteNamedHex\<close> and \<^verbatim>\<open>WriteNamedNormal\<close> (the last argument is the
  number of tabs), and, as one item each, the runs of the dumpers defined in other files.\<close>

datatype pe_stage =
    ClearWarnForCurrentFile | DumpHeaders | DumpSections | DumpOverlay | DumpTls | DumpExports
  | DumpImports | DumpBoundImports | DumpRelocations | DumpStrings | HandleWarnings

datatype out_item =
    Newline
  | Normal string nat
  | NamedHex string nat nat
  | NamedNormal string string nat
  | StageRun pe_stage nat
  | MemoryDumped process

type_synonym out = "out_item list"

record ThreadEntry =
  te_Usage :: nat
  te_Id :: nat
  te_OwnerId :: nat
  te_BasePriority :: nat
  te_DeltaPriority :: nat
  te_Flags :: nat

record ProcessEntry =
  pe_Id :: nat
  pe_Threads :: nat
  pe_ParentId :: nat
  pe_Priority :: nat
  pe_Name :: string

record Module =
  mod_Handle :: nat
  mod_Size :: nat
  mod_Name :: string
  mod_Path :: string

record PeFile =
  pf_Base :: nat
  pf_Is64 :: bool
  pf_Size :: nat

subsection \<open>Collaborators of the dumper\<close>

text \<open>
  The enumerations (\<^verbatim>\<open>ThreadList\<close>, \<^verbatim>\<open>ProcessList\<close>, \<^verbatim>\<open>ModuleList\<close>, \<^verbatim>\<open>RegionList\<close>), the
  constructors of \<^verbatim>\<open>Process\<close>, \<^verbatim>\<open>PeFile\<close>, \<^verbatim>\<open>DosHeader\<close> and \<^verbatim>\<open>NtHeaders\<close>, the process
  helpers and the dumpers of the other files are parameters; each may throw. An enumeration
  throws as a whole or yields its list. \<open>headers\<close> is the construction of \<^verbatim>\<open>DosHeader\<close>
  followed by \<^verbatim>\<open>NtHeaders\<close>; \<open>stage\<close> is one dumper called by \<^verbatim>\<open>DumpPeFile\<close>.
  \<open>g_quiet\<close> and \<open>g_strings\<close> are the globals of that name.
\<close>

record dump_env =
  ThreadList :: "nat \<Rightarrow> error + ThreadEntry list"
  ProcessList :: "error + ProcessEntry list"
  Process_ctor :: "nat \<Rightarrow> error + process"
  GetPath :: "process \<Rightarrow> error + string"
  GetPathNative :: "process \<Rightarrow> error + string"
  IsWoW64 :: "process \<Rightarrow> error + bool"
  ModuleList :: "process \<Rightarrow> error + Module list"
  PeFile_ctor :: "process \<Rightarrow> nat \<Rightarrow> error + PeFile"
  headers :: "process \<Rightarrow> PeFile \<Rightarrow> error option"
  stage :: "pe_stage \<Rightarrow> process \<Rightarrow> PeFile \<Rightarrow> error option"
  RegionList :: "process \<Rightarrow> error + MEMORY_BASIC_INFORMATION list"
  DumpMemory :: "process \<Rightarrow> error option"
  g_quiet :: bool
  g_strings :: bool

text \<open>Sequencing of statements that may throw: the first exception ends the sequence.\<close>

definition and_then :: "error option \<times> out \<Rightarrow> (out \<Rightarrow> error option \<times> out) \<Rightarrow> error option \<times> out" where
  "and_then r f = (case r of (Some e, w) \<Rightarrow> (Some e, w) | (None, w) \<Rightarrow> f w)"

subsection \<open>The functions of \<^verbatim>\<open>main.cpp\<close>\<close>

definition DumpRegion :: "MEMORY_BASIC_INFORMATION \<Rightarrow> out \<Rightarrow> out" where
  "DumpRegion region w =
     w @ [Newline,
          NamedHex ''Base'' (BaseAddress region) 1,
          NamedHex ''Allocation Base'' (AllocationBase region) 1,
          NamedHex ''Allocation Protect'' (unat (AllocationProtect region)) 1,
          NamedHex ''Size'' (RegionSize region) 1,
          NamedHex ''State'' (unat (State region)) 1,
          NamedHex ''Protect'' (unat (mbi_Protect region)) 1,
          NamedHex ''Type'' (unat (Type region)) 1]"

definition DumpRegions :: "dump_env \<Rightarrow> process \<Rightarrow> out \<Rightarrow> error option \<times> out" where
  "DumpRegions X p w =
     (let w1 = w @ [Newline, Normal ''Regions:'' 0]
      in case RegionList X p of
           Inl e \<Rightarrow> (Some e, w1)
         | Inr regions \<Rightarrow> (None, fold DumpRegion regions w1))"

definition run_stage :: "dump_env \<Rightarrow> pe_stage \<Rightarrow> process \<Rightarrow> PeFile \<Rightarrow> out \<Rightarrow> error option \<times> out" where
  "run_stage X st p pf w = (stage X st p pf, w @ [StageRun st (pf_Base pf)])"

fun run_stages ::
  "dump_env \<Rightarrow> pe_stage list \<Rightarrow> process \<Rightarrow> PeFile \<Rightarrow> out \<Rightarrow> error option \<times> out" where
  "run_stages X [] p pf w = (None, w)"
| "run_stages X (st # sts) p pf w = and_then (run_stage X st p pf w) (run_stages X sts p pf)"

definition k100MB :: nat where
  "k100MB = 2 ^ 20 * 100"

definition DumpPeFile ::
  "dump_env \<Rightarrow> process \<Rightarrow> PeFile \<Rightarrow> string \<Rightarrow> out \<Rightarrow> error option \<times> out" where
  "DumpPeFile X p pe_file path w =
     and_then (run_stage X ClearWarnForCurrentFile p pe_file w)
       (\<lambda>w1.
          let w2 = w1 @ [Newline,
                         Normal (if pf_Is64 pe_file then ''64-Bit File: Yes''
                                 else ''64-Bit File: No'') 1];
              w3 = (if pf_Size pe_file > k100MB
                    then w2 @ [Newline, Normal ''WARNING! File is over 100MB.'' 0] else w2)
          in run_stages X
               ([DumpHeaders, DumpSections, DumpOverlay, DumpTls, DumpExports, DumpImports,
                 DumpBoundImports, DumpRelocations] @
                (if \<not> g_quiet X \<and> g_strings X then [DumpStrings] else []) @
                [HandleWarnings])
               p pe_file w3)"

text \<open>The body of the loop of \<^verbatim>\<open>DumpModules\<close>, over the modules still to visit.\<close>

fun DumpModules_loop :: "dump_env \<Rightarrow> process \<Rightarrow> Module list \<Rightarrow> out \<Rightarrow> error option \<times> out" where
  "DumpModules_loop X p [] w = (None, w)"
| "DumpModules_loop X p (module # modules) w =
     (let w1 = w @ [Newline,
                    NamedHex ''Handle'' (mod_Handle module) 1,
                    NamedHex ''Size'' (mod_Size module) 1,
                    NamedNormal ''Name'' (mod_Name module) 1,
                    NamedNormal ''Path'' (mod_Path module) 1]
      in case PeFile_ctor X p (mod_Handle module) of
           Inl e \<Rightarrow> (Some e, w1)
         | Inr pe_file \<Rightarrow>
             (case headers X p pe_file of
                Some e \<Rightarrow>
                  DumpModules_loop X p modules
                    (w1 @ [Newline, Normal ''WARNING! Not a valid PE file or architecture.'' 1])
              | None \<Rightarrow>
                  and_then (DumpPeFile X p pe_file (mod_Path module) w1)
                    (DumpModules_loop X p modules)))"

definition DumpModules :: "dump_env \<Rightarrow> process \<Rightarrow> out \<Rightarrow> error option \<times> out" where
  "DumpModules X p w =
     (let w1 = w @ [Newline, Normal ''Modules:'' 0]
      in case ModuleList X p of
           Inl e \<Rightarrow> (Some e, w1)
         | Inr modules \<Rightarrow> DumpModules_loop X p modules w1)"

definition DumpThreadEntry :: "ThreadEntry \<Rightarrow> out \<Rightarrow> out" where
  "DumpThreadEntry thread_entry w =
     w @ [Newline,
          NamedHex ''Usage'' (te_Usage thread_entry) 1,
          NamedHex ''ID'' (te_Id thread_entry) 1,
          NamedHex ''Owner ID'' (te_OwnerId thread_entry) 1,
          NamedHex ''Base Priority'' (te_BasePriority thread_entry) 1,
          NamedHex ''Delta Priority'' (te_DeltaPriority thread_entry) 1,
          NamedHex ''Flags'' (te_Flags thread_entry) 1]"

definition DumpThreads :: "dump_env \<Rightarrow> nat \<Rightarrow> out \<Rightarrow> error option \<times> out" where
  "DumpThreads X pid w =
     (let w1 = w @ [Newline, Normal ''Threads:'' 0]
      in case ThreadList X pid of
           Inl e \<Rightarrow> (Some e, w1)
         | Inr threads \<Rightarrow> (None, fold DumpThreadEntry threads w1))"

definition DumpProcessEntry ::
  "dump_env \<Rightarrow> ProcessEntry \<Rightarrow> bool \<Rightarrow> out \<Rightarrow> error option \<times> out" where
  "DumpProcessEntry X process_entry memonly w =
     (let w1 = w @ [Newline,
                    NamedHex ''ID'' (pe_Id process_entry) 0,
                    NamedHex ''Threads'' (pe_Threads process_entry) 0,
                    NamedHex ''Parent'' (pe_ParentId process_entry) 0,
                    NamedHex ''Priority'' (pe_Priority process_entry) 0,
                    NamedNormal ''Name'' (pe_Name process_entry) 0]
      in and_then (if \<not> memonly then DumpThreads X (pe_Id process_entry) w1 else (None, w1))
        (\<lambda>w2.
           case Process_ctor X (pe_Id process_entry) of
             Inl e \<Rightarrow>
               (None, w2 @ [Newline,
                            Normal ''Could not open process for further inspection.'' 0,
                            Newline])
           | Inr p \<Rightarrow>
               and_then
                 (if \<not> memonly then
                    (let w3 = w2 @ [Newline];
                         w4 = (case GetPath X p of
                                 Inr path \<Rightarrow> w3 @ [Normal (''Path (Win32): '' @ path) 0]
                               | Inl e \<Rightarrow>
                                   w3 @ [Newline,
                                         Normal ''WARNING! Could not get Win32 path to process.'' 0])
                     in case GetPathNative X p of
                          Inl e \<Rightarrow> (Some e, w4)
                        | Inr native \<Rightarrow>
                            (let w5 = w4 @ [Normal (''Path (NT): '' @ native) 0]
                             in case IsWoW64 X p of
                                  Inl e \<Rightarrow> (Some e, w5)
                                | Inr wow \<Rightarrow>
                                    and_then
                                      (DumpModules X p
                                         (w5 @ [Normal (''WoW64: '' @ (if wow then ''Yes'' else ''No'')) 0]))
                                      (DumpRegions X p)))
                  else (None, w2))
                 (\<lambda>w6. (DumpMemory X p, w6 @ [MemoryDumped p]))))"

text \<open>The body of the loop of \<^verbatim>\<open>DumpProcesses\<close>.\<close>

fun DumpProcesses_loop ::
  "dump_env \<Rightarrow> bool \<Rightarrow> ProcessEntry list \<Rightarrow> out \<Rightarrow> error option \<times> out" where
  "DumpProcesses_loop X memonly [] w = (None, w)"
| "DumpProcesses_loop X memonly (process_entry # processes) w =
     and_then (DumpProcessEntry X process_entry memonly w) (DumpProcesses_loop X memonly processes)"

definition DumpProcesses :: "dump_env \<Rightarrow> bool \<Rightarrow> out \<Rightarrow> error option \<times> out" where
  "DumpProcesses X memonly w =
     (let w1 = w @ [Newline, Normal ''Processes:'' 0]
      in case ProcessList X of
           Inl e \<Rightarrow> (Some e, w1)
         | Inr processes \<Rightarrow> DumpProcesses_loop X memonly processes w1)"

subsection \<open>Observations on the output\<close>

text \<open>The processes and the modules a run visited, read off the first line written for
  each (\<^verbatim>\<open>ID\<close> with no tab, \<^verbatim>\<open>Handle\<close> with one), and the two reports of a skipped target.\<close>

fun visited_processes :: "out \<Rightarrow> nat list" where
  "visited_processes [] = []"
| "visited_processes (NamedHex n v t # xs) =
     (if n = ''ID'' \<and> t = 0 then v # visited_processes xs else visited_processes xs)"
| "visited_processes (x # xs) = visited_processes xs"

fun visited_modules :: "out \<Rightarrow> nat list" where
  "visited_modules [] = []"
| "visited_modules (NamedHex n v t # xs) =
     (if n = ''Handle'' \<and> t = 1 then v # visited_modules xs else visited_modules xs)"
| "visited_modules (x # xs) = visited_modules xs"

definition new_out :: "out \<Rightarrow> out \<Rightarrow> out" where
  "new_out w w' = drop (length w) w'"

text \<open>Every step that the dumper does not guard with a \<^verbatim>\<open>try\<close> block succeeds. The guarded
  steps (\<open>Process_ctor\<close>, \<open>GetPath\<close>, \<open>headers\<close>) are left free.\<close>

definition unguarded_steps_succeed :: "dump_env \<Rightarrow> bool" where
  "unguarded_steps_succeed X =
     ((\<forall>pid. \<exists>ts. ThreadList X pid = Inr ts) \<and>
      (\<forall>p. \<exists>s. GetPathNative X p = Inr s) \<and>
      (\<forall>p. \<exists>b. IsWoW64 X p = Inr b) \<and>
      (\<forall>p. \<exists>ms. ModuleList X p = Inr ms) \<and>
      (\<forall>p h. \<exists>pf. PeFile_ctor X p h = Inr pf) \<and>
      (\<forall>st p pf. stage X st p pf = None) \<and>
      (\<forall>p. \<exists>rs. RegionList X p = Inr rs) \<and>
      (\<forall>p. DumpMemory X p = None))"

text \<open>The two reports of a skipped target, how often an item occurs in the output, and the
  targets that the guarded steps reject.\<close>

definition count_item :: "out_item \<Rightarrow> out \<Rightarrow> nat" where
  "count_item x xs = length (filter (\<lambda>y. y = x) xs)"

definition header_warning :: out_item where
  "header_warning = Normal ''WARNING! Not a valid PE file or architecture.'' 1"

definition open_failure :: out_item where
  "open_failure = Normal ''Could not open process for further inspection.'' 0"

definition invalid_headers :: "dump_env \<Rightarrow> process \<Rightarrow> Module \<Rightarrow> bool" where
  "invalid_headers X p m =
     (case PeFile_ctor X p (mod_Handle m) of
        Inl e \<Rightarrow> False
      | Inr pe_file \<Rightarrow> headers X p pe_file \<noteq> None)"

definition cannot_open :: "dump_env \<Rightarrow> ProcessEntry \<Rightarrow> bool" where
  "cannot_open X e = (case Process_ctor X (pe_Id e) of Inl err \<Rightarrow> True | Inr p \<Rightarrow> False)"

text \<open>The dumpers of the other files that ran, in order: the stages of \<^verbatim>\<open>DumpPeFile\<close>
  with the base of the file they ran on, and the processes \<^verbatim>\<open>DumpMemory\<close> ran on.\<close>

fun stages_run :: "out \<Rightarrow> (pe_stage \<times> nat) list" where
  "stages_run [] = []"
| "stages_run (StageRun st b # xs) = (st, b) # stages_run xs"
| "stages_run (x # xs) = stages_run xs"

fun memory_dumps :: "out \<Rightarrow> process list" where
  "memory_dumps [] = []"
| "memory_dumps (MemoryDumped p # xs) = p # memory_dumps xs"
| "memory_dumps (x # xs) = memory_dumps xs"

text \<open>The stages of one complete \<^verbatim>\<open>DumpPeFile\<close>; the stages due to a module, none when
  its headers are invalid; the \<^verbatim>\<open>DumpMemory\<close> due to a process entry, none when the
  process cannot be opened.\<close>

definition pe_stages :: "dump_env \<Rightarrow> pe_stage list" where
  "pe_stages X =
     [ClearWarnForCurrentFile, DumpHeaders, DumpSections, DumpOverlay, DumpTls, DumpExports,
      DumpImports, DumpBoundImports, DumpRelocations] @
     (if \<not> g_quiet X \<and> g_strings X then [DumpStrings] else []) @ [HandleWarnings]"

definition module_stages :: "dump_env \<Rightarrow> process \<Rightarrow> Module \<Rightarrow> (pe_stage \<times> nat) list" where
  "module_stages X p m =
     (if invalid_headers X p m then []
      else case PeFile_ctor X p (mod_Handle m) of
             Inl e \<Rightarrow> []
           | Inr pe_file \<Rightarrow> map (\<lambda>st. (st, pf_Base pe_file)) (pe_stages X))"

definition opened :: "dump_env \<Rightarrow> ProcessEntry \<Rightarrow> process list" where
  "opened X e = (case Process_ctor X (pe_Id e) of Inl err \<Rightarrow> [] | Inr p \<Rightarrow> [p])"

text \<open>Output that starts no process and no module, reports no skipped target and holds no
  memory dump.\<close>

definition silent :: "out \<Rightarrow> bool" where
  "silent xs = (visited_processes xs = [] \<and> visited_modules xs = [] \<and>
     count_item header_warning xs = 0 \<and> count_item open_failure xs = 0 \<and>
     memory_dumps xs = [])"

subsection \<open>Sample collaborators\<close>

text \<open>Two processes, 4 and 8; process 8 cannot be opened. Process 4 has the modules 0x1000,
  0x2000 and 0x3000. Module 0x2000 has no valid headers. With \<open>bad = Some h\<close>,
  \<^verbatim>\<open>DumpHeaders\<close> throws the guard's exception for the module at \<open>h\<close>; nothing else
  throws.\<close>

definition sample_modules :: "Module list" where
  "sample_modules =
     [\<lparr>mod_Handle = 0x1000, mod_Size = 0x500, mod_Name = ''a.exe'', mod_Path = ''C:/a.exe''\<rparr>,
      \<lparr>mod_Handle = 0x2000, mod_Size = 0x500, mod_Name = ''b.dll'', mod_Path = ''C:/b.dll''\<rparr>,
      \<lparr>mod_Handle = 0x3000, mod_Size = 0x500, mod_Name = ''c.dll'', mod_Path = ''C:/c.dll''\<rparr>]"

definition sample_processes :: "ProcessEntry list" where
  "sample_processes =
     [\<lparr>pe_Id = 8, pe_Threads = 1, pe_ParentId = 0, pe_Priority = 8, pe_Name = ''System''\<rparr>,
      \<lparr>pe_Id = 4, pe_Threads = 1, pe_ParentId = 0, pe_Priority = 8, pe_Name = ''a.exe''\<rparr>,
      \<lparr>pe_Id = 12, pe_Threads = 1, pe_ParentId = 4, pe_Priority = 8, pe_Name = ''b.exe''\<rparr>]"

definition sample_dump_env :: "nat option \<Rightarrow> dump_env" where
  "sample_dump_env bad =
     \<lparr>ThreadList = (\<lambda>pid. Inr []),
      ProcessList = Inr sample_processes,
      Process_ctor = (\<lambda>pid. if pid = 8 then Inl (Error ''OpenProcess failed.'') else Inr pid),
      GetPath = (\<lambda>p. Inr ''C:/a.exe''),
      GetPathNative = (\<lambda>p. Inr ''/Device/a.exe''),
      IsWoW64 = (\<lambda>p. Inr False),
      ModuleList = (\<lambda>p. Inr (if p = 4 then sample_modules else [])),
      PeFile_ctor = (\<lambda>p h. Inr \<lparr>pf_Base = h, pf_Is64 = True, pf_Size = 0x500\<rparr>),
      headers = (\<lambda>p pf. if pf_Base pf = 0x2000 then Some (Error ''DOS header magic invalid.'')
                         else None),
      stage = (\<lambda>st p pf. if st = DumpHeaders \<and> bad = Some (pf_Base pf)
                          then Some bad_protection_error else None),
      RegionList = (\<lambda>p. Inr []),
      DumpMemory = (\<lambda>p. None),
      g_quiet = False,
      g_strings = False\<rparr>"

section \<open>Verification of the protection guard\<close>

lemma Protect_eq:
  "Protect X p m f w =
     (fst (VirtualProtect X (target w) p m f),
      \<lparr>target = snd (VirtualProtect X (target w) p m f),
       protect_calls = protect_calls w @ [(p, m, f)]\<rparr>)"
  by (simp add: Protect_def split: prod.splits)

lemma new_calls_same: "new_calls w w = []"
  by (simp add: new_calls_def)

lemma new_calls_app: "protect_calls w' = protect_calls w @ cs \<Longrightarrow> new_calls w w' = cs"
  by (simp add: new_calls_def)

text \<open>What one \<^verbatim>\<open>Restore\<close> does, by cases.\<close>

lemma Restore_cases:
  "Restore X g w = (r, g', w') \<Longrightarrow>
     (r = None \<and> g' = g \<and> w' = w \<and> old_protect g = 0) \<or>
     (r = None \<and> g' = g\<lparr>old_protect := 0\<rparr> \<and> w' = w \<and> can_read_or_write g) \<or>
     (g' = (if r = None then g\<lparr>old_protect := 0\<rparr> else g) \<and>
      old_protect g \<noteq> 0 \<and> \<not> can_read_or_write g \<and>
      protect_calls w' = protect_calls w @ [(process g, mbi g, old_protect g)])"
  by (auto simp add: Restore_def Protect_eq split: if_splits sum.splits prod.splits)

text \<open>
  Claim C7. A region classified Bad: construction throws the error
  "Attempt to access page with a 'bad' protection mask." (the spec's InvalidProtection), the
  world is untouched and no mutator call is logged.
\<close>

theorem bad_region_rejected:
  "IsBadProtect X m \<Longrightarrow>
     ProtectGuard_ctor X p m t w = (Inl bad_protection_error, w) \<and>
     new_calls w (snd (ProtectGuard_ctor X p m t w)) = []"
  by (simp add: ProtectGuard_ctor_def ProtectGuard_init_def Let_def new_calls_same)

theorem bad_region_rejected_witness:
  "ProtectGuard_ctor (sample_env grant_all) 7 (sample_mbi 0x01) kWrite world0
     = (Inl (Error ''Attempt to access page with a 'bad' protection mask.''), world0)"
  using bad_region_rejected [of "sample_env grant_all" "sample_mbi 0x01" 7 kWrite world0]
  by (simp add: sample_env_def sample_mbi_def bad_protection_error_def)

text \<open>
  Claim C6. A region that passes the Bad check and does not satisfy the requested mode. The
  first mutator call asks for \<^verbatim>\<open>PAGE_EXECUTE_READWRITE\<close>. If it is granted, construction
  succeeds with that single call and keeps the flags it returned. If it is refused, exactly
  one more call asks for \<^verbatim>\<open>PAGE_READWRITE\<close>; construction then succeeds, or fails with
  the error of that second call. In every case at most two calls are logged.
\<close>

theorem escalation_attempts:
  assumes "\<not> IsBadProtect X m"
    and "\<not> (if t = kRead then CanRead X m else CanWrite X m)"
  shows "(\<forall>old e1. VirtualProtect X (target w) p m PAGE_EXECUTE_READWRITE = (Inr old, e1) \<longrightarrow>
            ProtectGuard_ctor X p m t w =
              (Inr \<lparr>process = p, type = t, can_read_or_write = False, old_protect = old, mbi = m\<rparr>,
               \<lparr>target = e1,
                protect_calls = protect_calls w @ [(p, m, PAGE_EXECUTE_READWRITE)]\<rparr>)) \<and>
         (\<forall>err e1 r2 e2.
            VirtualProtect X (target w) p m PAGE_EXECUTE_READWRITE = (Inl err, e1) \<and>
            VirtualProtect X e1 p m PAGE_READWRITE = (r2, e2) \<longrightarrow>
            ProtectGuard_ctor X p m t w =
              (case r2 of
                 Inr old \<Rightarrow> Inr \<lparr>process = p, type = t, can_read_or_write = False,
                                old_protect = old, mbi = m\<rparr>
               | Inl err2 \<Rightarrow> Inl err2,
               \<lparr>target = e2,
                protect_calls = protect_calls w @
                  [(p, m, PAGE_EXECUTE_READWRITE), (p, m, PAGE_READWRITE)]\<rparr>)) \<and>
         length (new_calls w (snd (ProtectGuard_ctor X p m t w))) \<le> 2"
  using assms
  by (auto simp add: ProtectGuard_ctor_def ProtectGuard_init_def Let_def Protect_eq new_calls_def
      split: prod.splits sum.splits)

theorem escalation_attempts_witness:
  "ProtectGuard_ctor (sample_env refuse_all) 7 (sample_mbi 0x02) kWrite world0 =
     (Inl (Error ''VirtualProtectEx failed.''),
      \<lparr>target = (),
       protect_calls = [(7, sample_mbi 0x02, PAGE_EXECUTE_READWRITE),
                        (7, sample_mbi 0x02, PAGE_READWRITE)]\<rparr>)"
proof -
  let ?X = "sample_env refuse_all"
  have bad: "\<not> IsBadProtect ?X (sample_mbi 0x02)"
    by (simp add: sample_env_def sample_mbi_def)
  have unsat: "\<not> (if kWrite = kRead then CanRead ?X (sample_mbi 0x02)
                  else CanWrite ?X (sample_mbi 0x02))"
    by (simp add: sample_env_def sample_mbi_def)
  have first: "VirtualProtect ?X (target world0) 7 (sample_mbi 0x02) PAGE_EXECUTE_READWRITE =
                 (Inl (Error ''VirtualProtectEx failed.''), ())"
    by (simp add: sample_env_def refuse_all_def)
  have second: "VirtualProtect ?X () 7 (sample_mbi 0x02) PAGE_READWRITE =
                 (Inl (Error ''VirtualProtectEx failed.''), ())"
    by (simp add: sample_env_def refuse_all_def)
  from escalation_attempts [OF bad unsat, of world0 7] first second
  show ?thesis by (simp add: world0_def)
qed

text \<open>
  Claim C8. A region that satisfies the requested mode (\<^verbatim>\<open>CanRead\<close> for \<open>kRead\<close>,
  \<^verbatim>\<open>CanWrite\<close> for \<open>kWrite\<close>): construction leaves the world as it is, so no mutator
  call is made; unless the region is Bad (then construction throws, as in C7) the guard has
  \<open>can_read_or_write = True\<close> and \<open>old_protect = 0\<close>; and on such a guard \<^verbatim>\<open>Restore\<close>,
  \<^verbatim>\<open>RestoreUnchecked\<close> and the destructor change neither the guard nor the world, in
  whatever world they run, so every later call is a no-op as well.
\<close>

theorem satisfied_region_untouched:
  assumes "if t = kRead then CanRead X m else CanWrite X m"
  shows "snd (ProtectGuard_ctor X p m t w) = w \<and>
         fst (ProtectGuard_ctor X p m t w) =
           (if IsBadProtect X m then Inl bad_protection_error
            else Inr \<lparr>process = p, type = t, can_read_or_write = True, old_protect = 0, mbi = m\<rparr>) \<and>
         (\<forall>g w2. fst (ProtectGuard_ctor X p m t w) = Inr g \<longrightarrow>
            can_read_or_write g \<and>
            Restore X g w2 = (None, g, w2) \<and>
            RestoreUnchecked X g w2 = (g, w2) \<and>
            ProtectGuard_dtor X g w2 = w2)"
  using assms
  by (auto simp add: ProtectGuard_ctor_def ProtectGuard_init_def Let_def Restore_def
      RestoreUnchecked_def ProtectGuard_dtor_def)

theorem satisfied_region_untouched_witness:
  "ProtectGuard_ctor (sample_env refuse_all) 7 (sample_mbi 0x04) kWrite world0 =
     (Inr \<lparr>process = 7, type = kWrite, can_read_or_write = True, old_protect = 0,
           mbi = sample_mbi 0x04\<rparr>, world0) \<and>
   Restore (sample_env refuse_all)
     \<lparr>process = 7, type = kWrite, can_read_or_write = True, old_protect = 0,
      mbi = sample_mbi 0x04\<rparr> world0 =
     (None, \<lparr>process = 7, type = kWrite, can_read_or_write = True, old_protect = 0,
             mbi = sample_mbi 0x04\<rparr>, world0)"
proof -
  let ?X = "sample_env refuse_all"
  have sat: "if kWrite = kRead then CanRead ?X (sample_mbi 0x04) else CanWrite ?X (sample_mbi 0x04)"
    by (simp add: sample_env_def sample_mbi_def)
  have ok: "\<not> IsBadProtect ?X (sample_mbi 0x04)"
    by (simp add: sample_env_def sample_mbi_def)
  from satisfied_region_untouched [OF sat, of 7 world0] ok
  show ?thesis by (auto simp add: prod_eq_iff)
qed

text \<open>
  Claim C1, as amended. If the first \<^verbatim>\<open>Restore\<close> returns without throwing, a second
  \<^verbatim>\<open>Restore\<close> changes nothing and calls nothing, and at most one mutator call is made
  across both.
\<close>

theorem restore_twice_after_success:
  assumes "fst (Restore X g w) = None"
  shows "(case Restore X g w of
            (r1, g1, w1) \<Rightarrow>
              Restore X g1 w1 = (None, g1, w1) \<and> length (new_calls w w1) \<le> 1) \<and>
         length (new_calls w (snd (snd (Restore_twice X g w)))) \<le> 1"
  using assms
  by (auto simp add: Restore_twice_def Restore_def Protect_eq new_calls_def
      split: if_splits sum.splits prod.splits)

theorem restore_twice_after_success_witness:
  "length (new_calls world0
      (snd (snd (Restore_twice (sample_env grant_all) sample_guard world0)))) \<le> 1 \<and>
   fst (Restore (sample_env grant_all) sample_guard world0) = None"
proof -
  have ok: "fst (Restore (sample_env grant_all) sample_guard world0) = None"
    by (simp add: Restore_def Protect_def sample_env_def grant_all_def sample_guard_def)
  from restore_twice_after_success [OF ok] ok show ?thesis by simp
qed

text \<open>
  Claim C1 as stated fails when the first call throws: \<^verbatim>\<open>old_protect_\<close> is cleared only
  after \<^verbatim>\<open>Protect\<close> has returned, so the guard is unchanged and the second call asks the
  mutator again. With a mutator that refuses every request, two calls are logged.
\<close>

theorem restore_twice_counterexample:
  "\<not> length (new_calls world0
        (snd (snd (Restore_twice (sample_env refuse_all) sample_guard world0)))) \<le> 1 \<and>
   new_calls world0 (snd (snd (Restore_twice (sample_env refuse_all) sample_guard world0))) =
     [(7, sample_mbi 0x02, 0x02), (7, sample_mbi 0x02, 0x02)]"
  by (simp add: Restore_twice_def Restore_def Protect_def sample_env_def refuse_all_def
      sample_guard_def world0_def new_calls_def)

text \<open>A guard whose pending restore, if it has one, is the request \<open>c\<close>: as long as this
  holds of both objects, \<open>c\<close> is the only call that \<^verbatim>\<open>Restore\<close> and the destructor can
  make.\<close>

definition pending_is ::
  "ProtectGuard \<Rightarrow> process \<times> MEMORY_BASIC_INFORMATION \<times> dword \<Rightarrow> bool" where
  "pending_is g c = (old_protect g = 0 \<or> (process g, mbi g, old_protect g) = c)"

lemma Restore_pending:
  assumes "Restore X g w = (r, g', w')" and "pending_is g c"
  shows "pending_is g' c \<and> (\<exists>cs. protect_calls w' = protect_calls w @ cs \<and> set cs \<subseteq> {c})"
proof -
  from Restore_cases [OF assms(1)] consider
    (idle) "g' = g" "w' = w" "old_protect g = 0"
    | (clear) "g' = g\<lparr>old_protect := 0\<rparr>" "w' = w"
    | (call) "g' = (if r = None then g\<lparr>old_protect := 0\<rparr> else g)" "old_protect g \<noteq> 0"
        "protect_calls w' = protect_calls w @ [(process g, mbi g, old_protect g)]"
    by blast
  then show ?thesis
  proof cases
    case idle
    with assms(2) show ?thesis by simp
  next
    case clear
    then show ?thesis by (simp add: pending_is_def)
  next
    case call
    from call(2) assms(2) have c: "(process g, mbi g, old_protect g) = c"
      by (simp add: pending_is_def)
    have "pending_is g' c"
      using call(1) assms(2) by (simp add: pending_is_def)
    moreover have "\<exists>cs. protect_calls w' = protect_calls w @ cs \<and> set cs \<subseteq> {c}"
      using call(3) c by simp
    ultimately show ?thesis by blast
  qed
qed

lemma later_op_calls:
  assumes "later_op X a b op (h, w) = (h', w')"
    and "pending_is (h a) c" and "pending_is (h b) c"
  shows "pending_is (h' a) c \<and> pending_is (h' b) c \<and>
         (\<exists>cs. protect_calls w' = protect_calls w @ cs \<and> set cs \<subseteq> {c})"
proof -
  define x where "x = (if op = RestoreThis \<or> op = DestroyThis then a else b)"
  obtain r g1 w1 where res: "Restore X (h x) w = (r, g1, w1)"
    by (cases "Restore X (h x) w") auto
  have px: "pending_is (h x) c"
    using assms(2,3) by (simp add: x_def)
  from Restore_pending [OF res px] have g1: "pending_is g1 c"
    and cs: "\<exists>cs. protect_calls w1 = protect_calls w @ cs \<and> set cs \<subseteq> {c}"
    by blast+
  have eq: "h' = h(x := g1) \<and> w' = w1"
    using assms(1) res by (cases op) (auto simp add: x_def RestoreUnchecked_def)
  from eq g1 assms(2,3) cs show ?thesis by simp
qed

lemma later_ops_calls:
  assumes "later_ops X a b ops (h, w) = (h', w')"
    and "pending_is (h a) c" and "pending_is (h b) c"
  shows "\<exists>cs. protect_calls w' = protect_calls w @ cs \<and> set cs \<subseteq> {c}"
  using assms
proof (induction ops arbitrary: h w)
  case Nil
  then show ?case by simp
next
  case (Cons op ops)
  obtain h1 w1 where step: "later_op X a b op (h, w) = (h1, w1)"
    by (cases "later_op X a b op (h, w)") auto
  from later_op_calls [OF step Cons.prems(2) Cons.prems(3)]
  obtain cs1 where inv1: "pending_is (h1 a) c" and inv2: "pending_is (h1 b) c"
    and c1: "protect_calls w1 = protect_calls w @ cs1" "set cs1 \<subseteq> {c}"
    by blast
  from Cons.prems(1) step have rest: "later_ops X a b ops (h1, w1) = (h', w')"
    by simp
  from Cons.IH [OF rest inv1 inv2]
  obtain cs2 where c2: "protect_calls w' = protect_calls w1 @ cs2" "set cs2 \<subseteq> {c}"
    by blast
  from c1 c2 have "protect_calls w' = protect_calls w @ (cs1 @ cs2)"
    and "set (cs1 @ cs2) \<subseteq> {c}"
    by auto
  then show ?case by blast
qed

text \<open>With nothing pending, nothing is called.\<close>

lemma later_ops_idle:
  assumes "later_ops X a b ops (h, w) = (h', w')"
    and "old_protect (h a) = 0" and "old_protect (h b) = 0"
  shows "protect_calls w' = protect_calls w"
proof -
  let ?m = "mbi (h a)"
  have p1: "pending_is (h a) (0, ?m, 1)" "pending_is (h b) (0, ?m, 1)"
    using assms(2,3) by (simp_all add: pending_is_def)
  have p2: "pending_is (h a) (0, ?m, 2)" "pending_is (h b) (0, ?m, 2)"
    using assms(2,3) by (simp_all add: pending_is_def)
  from later_ops_calls [OF assms(1) p1] obtain cs where
    cs: "protect_calls w' = protect_calls w @ cs" "set cs \<subseteq> {(0, ?m, 1)}" by blast
  from later_ops_calls [OF assms(1) p2] obtain ds where
    ds: "protect_calls w' = protect_calls w @ ds" "set ds \<subseteq> {(0, ?m, 2)}" by blast
  from cs(1) ds(1) have "cs = ds" by simp
  with cs(2) ds(2) have "cs = []" by (cases cs) auto
  with cs(1) show ?thesis by simp
qed

lemma move_assign_eq:
  "ProtectGuard_move_assign a b h =
     (if a = b then h(a := (h a)\<lparr>old_protect := 0\<rparr>)
      else h(a := h b, b := (h b)\<lparr>old_protect := 0\<rparr>))"
  by (auto simp add: ProtectGuard_move_assign_def Let_def fun_eq_iff)

text \<open>
  Claim C10. Move assignment calls nothing and leaves the target a copy of the source with
  the source's \<open>old_protect\<close> cleared afterwards: the target's own saved protection is
  overwritten by the source's, and by 0 when the two are one object. From the assignment
  on, through any sequence of \<^verbatim>\<open>Restore\<close> calls and destructions of the two objects, the
  only mutator call ever made is the one that restores the source's saved protection, and
  none at all is made after a self-assignment; the call that would restore the target's
  original change (its process, its region, its saved flags) is never made, unless the
  source had saved that very same request.
\<close>

theorem move_assign_drops_pending_restore:
  "ProtectGuard_move_assign tgt src h tgt =
     (if tgt = src then (h src)\<lparr>old_protect := 0\<rparr> else h src) \<and>
   ProtectGuard_move_assign tgt src h src = (h src)\<lparr>old_protect := 0\<rparr> \<and>
   set (new_calls w (snd (assign_then X ops tgt src h w)))
     \<subseteq> {(process (h src), mbi (h src), old_protect (h src))} \<and>
   (tgt = src \<longrightarrow> new_calls w (snd (assign_then X ops tgt src h w)) = []) \<and>
   ((process (h tgt), mbi (h tgt), old_protect (h tgt))
      \<noteq> (process (h src), mbi (h src), old_protect (h src))
      \<longrightarrow> (process (h tgt), mbi (h tgt), old_protect (h tgt))
            \<notin> set (new_calls w (snd (assign_then X ops tgt src h w))))"
proof -
  let ?h = "ProtectGuard_move_assign tgt src h"
  let ?c = "(process (h src), mbi (h src), old_protect (h src))"
  obtain h' w' where run: "later_ops X tgt src ops (?h, w) = (h', w')"
    by (cases "later_ops X tgt src ops (?h, w)") auto
  have at_tgt: "?h tgt = (if tgt = src then (h src)\<lparr>old_protect := 0\<rparr> else h src)"
    by (simp add: move_assign_eq)
  have at_src: "?h src = (h src)\<lparr>old_protect := 0\<rparr>"
    by (simp add: move_assign_eq)
  have p: "pending_is (?h tgt) ?c" "pending_is (?h src) ?c"
    by (simp_all add: pending_is_def at_tgt at_src)
  from later_ops_calls [OF run p] obtain cs where
    "protect_calls w' = protect_calls w @ cs" "set cs \<subseteq> {?c}" by blast
  then have sub: "set (new_calls w w') \<subseteq> {?c}"
    by (simp add: new_calls_def)
  have self: "tgt = src \<longrightarrow> new_calls w w' = []"
  proof
    assume eq: "tgt = src"
    have z1: "old_protect (?h tgt) = 0"
      using eq by (simp add: move_assign_eq)
    have z2: "old_protect (?h src) = 0"
      by (simp add: move_assign_eq)
    have "protect_calls w' = protect_calls w"
      by (rule later_ops_idle [OF run z1 z2])
    then show "new_calls w w' = []" by (simp add: new_calls_def)
  qed
  have res: "snd (assign_then X ops tgt src h w) = w'"
    by (simp add: assign_then_def run)
  have miss: "(process (h tgt), mbi (h tgt), old_protect (h tgt)) \<noteq> ?c \<longrightarrow>
      (process (h tgt), mbi (h tgt), old_protect (h tgt)) \<notin> set (new_calls w w')"
    using sub by auto
  from at_tgt at_src sub self miss show ?thesis
    unfolding res by blast
qed

theorem move_assign_drops_pending_restore_witness:
  "(process (sample_store 1), mbi (sample_store 1), old_protect (sample_store 1))
     \<noteq> (process (sample_store 2), mbi (sample_store 2), old_protect (sample_store 2)) \<and>
   (process (sample_store 1), mbi (sample_store 1), old_protect (sample_store 1))
     \<notin> set (new_calls world0 (snd
          (assign_then (sample_env grant_all) [RestoreThis, DestroyThis, DestroyOther]
             1 2 sample_store world0))) \<and>
   new_calls world0 (snd
          (assign_then (sample_env grant_all) [RestoreThis, DestroyThis, DestroyOther]
             1 2 sample_store world0)) = [(7, sample_mbi 0x20, 0x20)] \<and>
   old_protect (sample_store 1) = 0x02 \<and>
   old_protect (ProtectGuard_move_assign 1 1 sample_store 1) = 0 \<and>
   new_calls world0 (snd
          (assign_then (sample_env grant_all) [RestoreThis, DestroyThis]
             1 1 sample_store world0)) = []"
proof -
  have ne: "(process (sample_store 1), mbi (sample_store 1), old_protect (sample_store 1))
     \<noteq> (process (sample_store 2), mbi (sample_store 2), old_protect (sample_store 2))"
    by (simp add: sample_store_def sample_guard_def other_guard_def)
  have run: "new_calls world0 (snd
          (assign_then (sample_env grant_all) [RestoreThis, DestroyThis, DestroyOther]
             1 2 sample_store world0)) = [(7, sample_mbi 0x20, 0x20)]"
    by (simp add: assign_then_def move_assign_eq Restore_def
        RestoreUnchecked_def Protect_def sample_env_def grant_all_def sample_store_def
        sample_guard_def other_guard_def world0_def new_calls_def)
  have old: "old_protect (sample_store 1) = 0x02"
    by (simp add: sample_store_def sample_guard_def)
  from move_assign_drops_pending_restore
    [of 1 2 sample_store world0 "sample_env grant_all"
        "[RestoreThis, DestroyThis, DestroyOther]"]
    move_assign_drops_pending_restore
    [of 1 1 sample_store world0 "sample_env grant_all" "[RestoreThis, DestroyThis]"]
    ne run old
  show ?thesis by simp
qed

section \<open>Verification of the proxy\<close>

lemma call_out_eq:
  "call_out f w =
     (fst (f (wrapped w) (thread_last_error w)),
      w\<lparr>thread_last_error := snd (snd (f (wrapped w) (thread_last_error w))),
        wrapped := fst (snd (f (wrapped w) (thread_last_error w)))\<rparr>)"
  by (simp add: call_out_def split: prod.splits)

lemmas proxy_plumbing =
  call_logged_def call_out_eq log_event_def do_trace_def Revert_def Update_def
  LastErrorPreserver_ctor_def LastErrorPreserver_dtor_def Cleanup_def new_events_def Let_def

lemma new_events_app: "events w' = events w @ evs \<Longrightarrow> new_events w w' = evs"
  by (simp add: new_events_def)

lemma zero_transitions_app [simp]:
  "zero_transitions (xs @ ys) = zero_transitions xs + zero_transitions ys"
  by (simp add: zero_transitions_def)

subsection \<open>The thread's last-error value\<close>

text \<open>After \<^verbatim>\<open>Release\<close>, \<^verbatim>\<open>QueryInterface\<close>, \<^verbatim>\<open>GetDeviceState\<close> and
  \<^verbatim>\<open>GetDeviceData\<close> the caller sees the last-error value that the wrapped call left,
  whatever the traces, the callbacks and the \<^verbatim>\<open>Cleanup\<close> hook did to it; and the wrapped
  call itself saw the caller's value.\<close>

lemma Release_last_error:
  "thread_last_error (snd (snd (Release X p w))) =
     snd (snd (wrapped_Release X (wrapped w) (thread_last_error w)))"
  by (simp add: Release_def proxy_plumbing split: prod.splits)

lemma QueryInterface_last_error:
  "thread_last_error (snd (snd (QueryInterface X riid obj0 p w))) =
     snd (snd (wrapped_QueryInterface X riid obj0 (wrapped w) (thread_last_error w)))"
  by (simp add: QueryInterface_def proxy_plumbing split: prod.splits)

lemma GetDeviceState_last_error:
  "thread_last_error (snd (GetDeviceState X len_data data p w)) =
     snd (snd (wrapped_GetDeviceState X len_data data (wrapped w) (thread_last_error w)))"
  by (simp add: GetDeviceState_def proxy_plumbing split: prod.splits)

lemma GetDeviceData_last_error:
  "thread_last_error (snd (GetDeviceData X len_object_data rgdod in_out flags p w)) =
     snd (snd (wrapped_GetDeviceData X len_object_data rgdod in_out flags (wrapped w)
                 (thread_last_error w)))"
  by (simp add: GetDeviceData_def proxy_plumbing split: prod.splits)

lemma AddRef_last_error:
  "thread_last_error (snd (snd (AddRef X p w))) =
     trace X ''Internal refs: [%lu]. External refs: [%lld].''
       (snd (snd (wrapped_AddRef X (wrapped w) (thread_last_error w))))"
  by (simp add: AddRef_def proxy_plumbing split: prod.splits)

text \<open>
  Claim C2 does not hold for \<^verbatim>\<open>AddRef\<close>: it has no \<^verbatim>\<open>LastErrorPreserver\<close>, so the
  caller sees what the trace statement after the wrapped call left. With a wrapped device
  that sets the last-error value to 5 and a trace that leaves 0, the caller of \<^verbatim>\<open>AddRef\<close>
  sees 0, whereas the caller of \<^verbatim>\<open>Release\<close>, which runs the same trace statement, sees 5.
\<close>

theorem AddRef_last_error_not_isolated:
  "snd (snd (wrapped_AddRef counting_device (wrapped (pworld0 1))
              (thread_last_error (pworld0 1)))) = 5 \<and>
   thread_last_error (snd (snd (AddRef counting_device sample_proxy (pworld0 1)))) = 0 \<and>
   thread_last_error (snd (snd (Release counting_device sample_proxy (pworld0 2)))) = 5"
  by (simp add: AddRef_def Release_def proxy_plumbing counting_device_def sample_proxy_def
      pworld0_def split: prod.splits)

subsection \<open>Release and QueryInterface\<close>



text \<open>
  Claim C5. The wrapped \<^verbatim>\<open>QueryInterface\<close> succeeded, wrote \<open>obj\<close> and left the state
  \<open>d\<close> behind the interface. If \<open>obj\<close> is the wrapped device, the caller gets the wrapped
  result and the proxy's own address, the external count has grown by exactly one, and
  nothing else was called: the state is still \<open>d\<close>. Otherwise the caller gets
  \<^verbatim>\<open>E_NOINTERFACE\<close>, a failure code (the spec's UnhandledIdentity), the count is unchanged,
  and the foreign pointer is released exactly once: the state behind the interface is what
  one \<^verbatim>\<open>Release\<close> on \<open>obj\<close> makes of \<open>d\<close>, and the log holds the wrapped query and that one
  release.
\<close>

theorem QueryInterface_identity:
  assumes "wrapped_QueryInterface X riid obj0 (wrapped w) (thread_last_error w) = ((hr, obj), d, le)"
    and "SUCCEEDED hr"
  shows "(obj = device p \<longrightarrow>
            fst (QueryInterface X riid obj0 p w) = (hr, this p) \<and>
            fst (snd (QueryInterface X riid obj0 p w)) = p\<lparr>refs := refs p + 1\<rparr> \<and>
            new_events w (snd (snd (QueryInterface X riid obj0 p w))) =
              [WrappedQueryInterface riid hr obj, RefsIncremented (refs p + 1)] \<and>
            wrapped (snd (snd (QueryInterface X riid obj0 p w))) = d) \<and>
         (obj \<noteq> device p \<longrightarrow>
            fst (QueryInterface X riid obj0 p w) = (E_NOINTERFACE, obj) \<and>
            \<not> SUCCEEDED (fst (fst (QueryInterface X riid obj0 p w))) \<and>
            fst (snd (QueryInterface X riid obj0 p w)) = p \<and>
            new_events w (snd (snd (QueryInterface X riid obj0 p w))) =
              [WrappedQueryInterface riid hr obj, ForeignRelease obj] \<and>
            wrapped (snd (snd (QueryInterface X riid obj0 p w))) =
              fst (snd (foreign_Release X obj d
                     (trace X ''WARNING! Unhandled interface.'' (trace X ''Succeeded.'' le)))))"
  using assms
  by (simp add: QueryInterface_def proxy_plumbing SUCCEEDED_def E_NOINTERFACE_def
      split: prod.splits)

theorem QueryInterface_identity_witness:
  "QueryInterface counting_device 1 0 sample_proxy (pworld0 1) =
     ((0, 300), \<lparr>refs = 2, device = 100, this = 300\<rparr>,
      \<lparr>thread_last_error = 5, wrapped = (2, 1),
       events = [WrappedQueryInterface 1 0 100, RefsIncremented 2]\<rparr>) \<and>
   fst (QueryInterface counting_device 9 0 sample_proxy (pworld0 1)) = (E_NOINTERFACE, 200) \<and>
   new_events (pworld0 1) (snd (snd (QueryInterface counting_device 9 0 sample_proxy (pworld0 1))))
     = [WrappedQueryInterface 9 0 200, ForeignRelease 200] \<and>
   fst (snd (wrapped_QueryInterface counting_device 9 0 (wrapped (pworld0 1))
               (thread_last_error (pworld0 1)))) = (1, 2) \<and>
   wrapped (snd (snd (QueryInterface counting_device 9 0 sample_proxy (pworld0 1)))) = (1, 1)"
proof -
  have q1: "wrapped_QueryInterface counting_device 1 0 (wrapped (pworld0 1))
              (thread_last_error (pworld0 1)) = ((0, 100), (2, 1), 5)"
    by (simp add: counting_device_def pworld0_def)
  have q9: "wrapped_QueryInterface counting_device 9 0 (wrapped (pworld0 1))
              (thread_last_error (pworld0 1)) = ((0, 200), (1, 2), 5)"
    by (simp add: counting_device_def pworld0_def)
  have ok: "SUCCEEDED 0"
    by (simp add: SUCCEEDED_def)
  have fr: "fst (snd (foreign_Release counting_device 200 (1, 2)
      (trace counting_device ''WARNING! Unhandled interface.''
         (trace counting_device ''Succeeded.'' 5)))) = (1, 1)"
    by (simp add: counting_device_def)
  have w1: "snd (snd (QueryInterface counting_device 1 0 sample_proxy (pworld0 1))) =
      \<lparr>thread_last_error = 5, wrapped = (2, 1),
       events = [WrappedQueryInterface 1 0 100, RefsIncremented 2]\<rparr>"
    by (simp add: QueryInterface_def proxy_plumbing counting_device_def sample_proxy_def
      pworld0_def SUCCEEDED_def)
  from QueryInterface_identity [OF q1 ok, of sample_proxy]
       QueryInterface_identity [OF q9 ok, of sample_proxy] w1 q9 fr
  show ?thesis
    by (simp add: sample_proxy_def prod_eq_iff)
qed

subsection \<open>Executions\<close>

text \<open>One call on a live proxy: the events it appends and the external count it leaves.\<close>

lemma AddRef_step:
  "AddRef X p w = (r, p1, w1) \<Longrightarrow>
     p1 = p\<lparr>refs := refs p + 1\<rparr> \<and>
     events w1 = events w @ [RefsIncremented (refs p + 1), WrappedAddRef r]"
  by (auto simp add: AddRef_def proxy_plumbing split: prod.splits)

lemma Release_facts:
  "fst (snd (Release X p w)) =
     (if fst (Release X p w) = 0 then None else Some (p\<lparr>refs := refs p - 1\<rparr>)) \<and>
   events (snd (snd (Release X p w))) = events w @ [RefsDecremented (refs p - 1)] @
       (if refs p - 1 = 0 then [CleanupRun] else []) @ [WrappedRelease (fst (Release X p w))] @
       (if fst (Release X p w) = 0 then [ProxyDeleted] else [])"
  by (simp add: Release_def proxy_plumbing split: prod.splits)

lemma Release_step:
  assumes "Release X p w = (r, po, w1)"
  shows "po = (if r = 0 then None else Some (p\<lparr>refs := refs p - 1\<rparr>)) \<and>
     events w1 = events w @ [RefsDecremented (refs p - 1)] @
       (if refs p - 1 = 0 then [CleanupRun] else []) @ [WrappedRelease r] @
       (if r = 0 then [ProxyDeleted] else [])"
  using Release_facts [of X p w] unfolding assms fst_conv snd_conv by blast

lemma QueryInterface_step:
  "QueryInterface X riid obj0 p w = ((hr1, obj1), p1, w1) \<Longrightarrow>
     (\<exists>hr obj.
        (\<not> SUCCEEDED hr1 \<and> p1 = p \<and>
           (events w1 = events w @ [WrappedQueryInterface riid hr obj] \<or>
            events w1 = events w @ [WrappedQueryInterface riid hr obj, ForeignRelease obj])) \<or>
        (SUCCEEDED hr1 \<and> p1 = p\<lparr>refs := refs p + 1\<rparr> \<and>
           events w1 =
             events w @ [WrappedQueryInterface riid hr obj, RefsIncremented (refs p + 1)]))"
  by (auto simp add: QueryInterface_def proxy_plumbing SUCCEEDED_def E_NOINTERFACE_def
      split: prod.splits if_splits)

lemma proxy_do_step:
  assumes "proxy_do X c p w = (r, po, w1)"
  shows "\<exists>evs. events w1 = events w @ evs \<and>
           (po = None \<longleftrightarrow> ProxyDeleted \<in> set evs) \<and>
           (po = None \<longleftrightarrow> WrappedRelease 0 \<in> set evs) \<and>
           (\<forall>p1. po = Some p1 \<longrightarrow> refs p1 = ledger_after (refs p) c r) \<and>
           (0 < refs p \<longrightarrow>
              zero_transitions evs = (if ledger_after (refs p) c r = 0 then 1 else 0))"
proof (cases c)
  case CallAddRef
  with assms show ?thesis
    by (auto simp add: zero_transitions_def split: prod.splits dest!: AddRef_step)
next
  case CallRelease
  with assms show ?thesis
    by (auto simp add: zero_transitions_def split: prod.splits if_splits dest!: Release_step)
next
  case (CallQueryInterface riid obj0)
  with assms show ?thesis
    by (auto simp add: zero_transitions_def split: prod.splits dest!: QueryInterface_step)
qed

text \<open>In an execution the proxy is gone exactly when a wrapped \<^verbatim>\<open>Release\<close> returned
  zero.\<close>

lemma proxy_run_destruction:
  "proxy_run X cs (Some p, w) = Some (po, w') \<Longrightarrow>
     \<exists>evs. events w' = events w @ evs \<and>
       (po = None \<longleftrightarrow> ProxyDeleted \<in> set evs) \<and>
       (po = None \<longleftrightarrow> WrappedRelease 0 \<in> set evs)"
proof (induction cs arbitrary: p w)
  case Nil
  then show ?case by auto
next
  case (Cons c cs)
  obtain r po1 w1 where step: "proxy_do X c p w = (r, po1, w1)"
    by (cases "proxy_do X c p w") auto
  from proxy_do_step [OF step] obtain evs1 where
    e1: "events w1 = events w @ evs1"
    and d1: "po1 = None \<longleftrightarrow> ProxyDeleted \<in> set evs1"
    and r1: "po1 = None \<longleftrightarrow> WrappedRelease 0 \<in> set evs1"
    by blast
  from Cons.prems step have rest: "proxy_run X cs (po1, w1) = Some (po, w')" by simp
  show ?case
  proof (cases po1)
    case None
    with rest have "cs = []" by (cases cs) auto
    with rest None have "po = None" "w' = w1" by simp_all
    with e1 d1 r1 None show ?thesis by auto
  next
    case (Some p1)
    with rest have "proxy_run X cs (Some p1, w1) = Some (po, w')" by simp
    from Cons.IH [OF this] obtain evs2 where
      e2: "events w' = events w1 @ evs2"
      and d2: "po = None \<longleftrightarrow> ProxyDeleted \<in> set evs2"
      and r2: "po = None \<longleftrightarrow> WrappedRelease 0 \<in> set evs2"
      by blast
    from Some d1 have n1: "ProxyDeleted \<notin> set evs1" by simp
    from Some r1 have n2: "WrappedRelease 0 \<notin> set evs1" by simp
    have "events w' = events w @ (evs1 @ evs2)" using e1 e2 by simp
    moreover have "po = None \<longleftrightarrow> ProxyDeleted \<in> set (evs1 @ evs2)" using d2 n1 by simp
    moreover have "po = None \<longleftrightarrow> WrappedRelease 0 \<in> set (evs1 @ evs2)" using r2 n2 by simp
    ultimately show ?thesis by blast
  qed
qed

text \<open>Along the calls of a client that follows the protocol the external count is the
  client's ledger, so it arrives at zero only with the call that gives up the client's last
  reference.\<close>

lemma proxy_run_protocol:
  "follows_protocol X n cs (Some p, w) \<Longrightarrow> refs p = n \<Longrightarrow>
     \<exists>po w' evs. proxy_run X cs (Some p, w) = Some (po, w') \<and>
       events w' = events w @ evs \<and> zero_transitions evs \<le> 1 \<and>
       (\<forall>p'. po = Some p' \<longrightarrow> refs p' = client_ledger X n cs (Some p, w))"
proof (induction cs arbitrary: p w n)
  case Nil
  then show ?case by (simp add: zero_transitions_def)
next
  case (Cons c cs)
  obtain r po1 w1 where step: "proxy_do X c p w = (r, po1, w1)"
    by (cases "proxy_do X c p w") auto
  define n1 where "n1 = ledger_after n c r"
  from Cons.prems(1) step have pos: "0 < n"
    and fp: "follows_protocol X n1 cs (po1, w1)"
    by (simp_all add: n1_def)
  from proxy_do_step [OF step] pos Cons.prems(2) obtain evs1 where
    e1: "events w1 = events w @ evs1"
    and l1: "\<forall>p1. po1 = Some p1 \<longrightarrow> refs p1 = n1"
    and z1: "zero_transitions evs1 = (if n1 = 0 then 1 else 0)"
    unfolding n1_def by blast
  have run: "proxy_run X (c # cs) (Some p, w) = proxy_run X cs (po1, w1)"
    by (simp add: step)
  have led: "client_ledger X n (c # cs) (Some p, w) = client_ledger X n1 cs (po1, w1)"
    by (simp add: step n1_def)
  show ?case
  proof (cases cs)
    case Nil
    have a: "proxy_run X cs (po1, w1) = Some (po1, w1)"
      by (simp add: Nil)
    have b: "client_ledger X n1 cs (po1, w1) = n1"
      by (simp add: Nil)
    have "proxy_run X (c # cs) (Some p, w) = Some (po1, w1)"
      by (rule trans [OF run a])
    moreover have "zero_transitions evs1 \<le> 1" using z1 by simp
    moreover have "\<forall>p'. po1 = Some p' \<longrightarrow> refs p' = client_ledger X n (c # cs) (Some p, w)"
      unfolding trans [OF led b] by (rule l1)
    ultimately show ?thesis using e1 by blast
  next
    case (Cons c2 cs2)
    with fp obtain p1 where some: "po1 = Some p1" and pos1: "0 < n1"
      by (cases po1) auto
    from l1 some have r1: "refs p1 = n1" by simp
    from z1 pos1 have zz: "zero_transitions evs1 = 0" by simp
    from fp some have fp1: "follows_protocol X n1 cs (Some p1, w1)" by simp
    from Cons.IH [OF fp1 r1] obtain po w' evs2 where
      r2: "proxy_run X cs (Some p1, w1) = Some (po, w')"
      and e2: "events w' = events w1 @ evs2" and z2: "zero_transitions evs2 \<le> 1"
      and l2: "\<forall>p'. po = Some p' \<longrightarrow> refs p' = client_ledger X n1 cs (Some p1, w1)"
      by blast
    have "proxy_run X (c # cs) (Some p, w) = Some (po, w')"
      unfolding run some by (rule r2)
    moreover have "events w' = events w @ (evs1 @ evs2)" using e1 e2 by simp
    moreover have "zero_transitions (evs1 @ evs2) \<le> 1" using zz z2 by simp
    moreover have "\<forall>p'. po = Some p' \<longrightarrow> refs p' = client_ledger X n (c # cs) (Some p, w)"
      unfolding led some by (rule l2)
    ultimately show ?thesis by blast
  qed
qed

text \<open>The protocol holds of every initial part of a sequence that follows it, so what is
  proved for the end of such a sequence holds after each of its calls.\<close>

lemma follows_protocol_prefix:
  "follows_protocol X n (cs @ ds) s \<Longrightarrow> follows_protocol X n cs s"
proof (induction cs arbitrary: n s)
  case Nil
  show ?case by simp
next
  case (Cons c cs)
  obtain po w where s: "s = (po, w)" by (cases s)
  show ?case
  proof (cases po)
    case None
    with Cons.prems s show ?thesis by simp
  next
    case (Some p)
    obtain r po1 w1 where step: "proxy_do X c p w = (r, po1, w1)"
      by (cases "proxy_do X c p w") auto
    from Cons.prems s Some step have "0 < n"
      and "follows_protocol X (ledger_after n c r) (cs @ ds) (po1, w1)"
      by simp_all
    with Cons.IH show ?thesis
      by (simp add: s Some step)
  qed
qed

text \<open>
  Claim C3, as amended. A client that follows the reference-counting protocol makes each
  call while its own ledger of references (what it held at the start, plus one for each
  \<^verbatim>\<open>AddRef\<close> and each \<^verbatim>\<open>QueryInterface\<close> that returned success, minus one for each
  \<^verbatim>\<open>Release\<close>) is positive. When the external count starts equal to that ledger, every
  such sequence of calls is an execution, the external count equals the ledger after it,
  and the count has arrived at zero at most once. In every execution, of any client, the
  proxy is destroyed exactly when a wrapped \<^verbatim>\<open>Release\<close> has returned zero.
\<close>

theorem proxy_lifecycle:
  "(follows_protocol X (refs p) cs (Some p, w) \<longrightarrow>
      (\<exists>po w'. proxy_run X cs (Some p, w) = Some (po, w') \<and>
         zero_transitions (new_events w w') \<le> 1 \<and>
         (\<forall>p'. po = Some p' \<longrightarrow> refs p' = client_ledger X (refs p) cs (Some p, w)))) \<and>
   (\<forall>po w'. proxy_run X cs (Some p, w) = Some (po, w') \<longrightarrow>
      (po = None \<longleftrightarrow> WrappedRelease 0 \<in> set (new_events w w')) \<and>
      (po = None \<longleftrightarrow> ProxyDeleted \<in> set (new_events w w')))"
proof -
  have protocol: "follows_protocol X (refs p) cs (Some p, w) \<longrightarrow>
      (\<exists>po w'. proxy_run X cs (Some p, w) = Some (po, w') \<and>
         zero_transitions (new_events w w') \<le> 1 \<and>
         (\<forall>p'. po = Some p' \<longrightarrow> refs p' = client_ledger X (refs p) cs (Some p, w)))"
  proof
    assume "follows_protocol X (refs p) cs (Some p, w)"
    from proxy_run_protocol [OF this refl] obtain po w' evs where
      r: "proxy_run X cs (Some p, w) = Some (po, w')" and e: "events w' = events w @ evs"
      and z: "zero_transitions evs \<le> 1"
      and l: "\<forall>p'. po = Some p' \<longrightarrow> refs p' = client_ledger X (refs p) cs (Some p, w)"
      by blast
    from e have n: "new_events w w' = evs" by (simp add: new_events_def)
    from z have z': "zero_transitions (new_events w w') \<le> 1" unfolding n .
    from r z' l show "\<exists>po w'. proxy_run X cs (Some p, w) = Some (po, w') \<and>
         zero_transitions (new_events w w') \<le> 1 \<and>
         (\<forall>p'. po = Some p' \<longrightarrow> refs p' = client_ledger X (refs p) cs (Some p, w))"
      by blast
  qed
  have destruction: "\<forall>po w'. proxy_run X cs (Some p, w) = Some (po, w') \<longrightarrow>
      (po = None \<longleftrightarrow> WrappedRelease 0 \<in> set (new_events w w')) \<and>
      (po = None \<longleftrightarrow> ProxyDeleted \<in> set (new_events w w'))"
  proof (intro allI impI)
    fix po w'
    assume run: "proxy_run X cs (Some p, w) = Some (po, w')"
    from proxy_run_destruction [OF run] obtain evs where
      e: "events w' = events w @ evs" and d: "po = None \<longleftrightarrow> ProxyDeleted \<in> set evs"
      and r: "po = None \<longleftrightarrow> WrappedRelease 0 \<in> set evs"
      by blast
    from e have n: "new_events w w' = evs" by (simp add: new_events_def)
    from r d show "(po = None \<longleftrightarrow> WrappedRelease 0 \<in> set (new_events w w')) \<and>
      (po = None \<longleftrightarrow> ProxyDeleted \<in> set (new_events w w'))"
      unfolding n by (rule conjI)
  qed
  from protocol destruction show ?thesis by (rule conjI)
qed

lemma sample_run_query_release_release:
  "proxy_run counting_device [CallQueryInterface 1 0, CallRelease, CallRelease]
     (Some sample_proxy, pworld0 1)
   = Some (None, \<lparr>thread_last_error = 5, wrapped = (0, 1),
        events = [WrappedQueryInterface 1 0 100, RefsIncremented 2,
                  RefsDecremented 1, WrappedRelease 1,
                  RefsDecremented 0, CleanupRun, WrappedRelease 0, ProxyDeleted]\<rparr>)"
  by (simp add: QueryInterface_def Release_def proxy_plumbing counting_device_def
      sample_proxy_def pworld0_def SUCCEEDED_def)

theorem proxy_lifecycle_witness:
  "follows_protocol counting_device (refs sample_proxy)
     [CallQueryInterface 1 0, CallRelease, CallRelease] (Some sample_proxy, pworld0 1) \<and>
   zero_transitions (new_events (pworld0 1)
     \<lparr>thread_last_error = 5, wrapped = (0, 1),
        events = [WrappedQueryInterface 1 0 100, RefsIncremented 2,
                  RefsDecremented 1, WrappedRelease 1,
                  RefsDecremented 0, CleanupRun, WrappedRelease 0, ProxyDeleted]\<rparr>) \<le> 1 \<and>
   WrappedRelease 0 \<in> set (new_events (pworld0 1)
     \<lparr>thread_last_error = 5, wrapped = (0, 1),
        events = [WrappedQueryInterface 1 0 100, RefsIncremented 2,
                  RefsDecremented 1, WrappedRelease 1,
                  RefsDecremented 0, CleanupRun, WrappedRelease 0, ProxyDeleted]\<rparr>)"
proof -
  have h: "follows_protocol counting_device (refs sample_proxy)
     [CallQueryInterface 1 0, CallRelease, CallRelease] (Some sample_proxy, pworld0 1)"
    by (simp add: QueryInterface_def Release_def proxy_plumbing counting_device_def
      sample_proxy_def pworld0_def SUCCEEDED_def)
  from proxy_lifecycle [of counting_device sample_proxy
      "[CallQueryInterface 1 0, CallRelease, CallRelease]" "pworld0 1"] h
  show ?thesis
    unfolding sample_run_query_release_release by auto
qed

text \<open>
  Claim C3 as stated fails: nothing in the proxy remembers that the count was zero, and
  no call is refused. A wrapped device with one other holder (count 2) keeps the proxy
  alive when the external count reaches zero; an \<^verbatim>\<open>AddRef\<close> on the still existing proxy
  and a \<^verbatim>\<open>Release\<close> then bring the count to zero a second time, and \<^verbatim>\<open>Cleanup\<close> runs
  again. The sequence is an execution: the proxy exists at every call.
\<close>

theorem zero_twice_counterexample:
  "proxy_run counting_device [CallRelease, CallAddRef, CallRelease]
     (Some sample_proxy, pworld0 2) =
     Some (Some \<lparr>refs = 0, device = 100, this = 300\<rparr>,
           \<lparr>thread_last_error = 5, wrapped = (1, 1),
            events = [RefsDecremented 0, CleanupRun, WrappedRelease 1,
                      RefsIncremented 1, WrappedAddRef 2,
                      RefsDecremented 0, CleanupRun, WrappedRelease 1]\<rparr>) \<and>
   zero_transitions [RefsDecremented 0, CleanupRun, WrappedRelease 1,
                     RefsIncremented 1, WrappedAddRef 2,
                     RefsDecremented 0, CleanupRun, WrappedRelease 1] = 2 \<and>
   \<not> zero_transitions [RefsDecremented 0, CleanupRun, WrappedRelease 1,
                       RefsIncremented 1, WrappedAddRef 2,
                       RefsDecremented 0, CleanupRun, WrappedRelease 1] \<le> 1"
  by (simp add: AddRef_def Release_def proxy_plumbing counting_device_def sample_proxy_def
      pworld0_def zero_transitions_def)

section \<open>Verification of the batch dumper\<close>

lemma visited_processes_app [simp]:
  "visited_processes (xs @ ys) = visited_processes xs @ visited_processes ys"
  by (induction xs rule: visited_processes.induct) auto

lemma visited_modules_app [simp]:
  "visited_modules (xs @ ys) = visited_modules xs @ visited_modules ys"
  by (induction xs rule: visited_modules.induct) auto

lemma stages_run_app [simp]:
  "stages_run (xs @ ys) = stages_run xs @ stages_run ys"
  by (induction xs rule: stages_run.induct) auto

lemma memory_dumps_app [simp]:
  "memory_dumps (xs @ ys) = memory_dumps xs @ memory_dumps ys"
  by (induction xs rule: memory_dumps.induct) auto

lemma count_item_simps [simp]:
  "count_item x [] = 0"
  "count_item x (y # ys) = (if y = x then Suc (count_item x ys) else count_item x ys)"
  "count_item x (xs @ ys) = count_item x xs + count_item x ys"
  by (simp_all add: count_item_def)

lemma fold_DumpRegion: "\<exists>xs. (\<forall>w. fold DumpRegion rs w = w @ xs) \<and> silent xs"
proof (induction rs)
  case Nil
  show ?case by (simp add: silent_def header_warning_def open_failure_def)
next
  case (Cons r rs)
  then obtain xs where xs: "\<forall>w. fold DumpRegion rs w = w @ xs" "silent xs" by blast
  have step: "fold DumpRegion (r # rs) w = DumpRegion r w @ xs" for w
    by (simp add: xs(1))
  show ?case
    unfolding step using xs(2) by (simp add: DumpRegion_def silent_def header_warning_def open_failure_def)
qed

lemma fold_DumpThreadEntry: "\<exists>xs. (\<forall>w. fold DumpThreadEntry ts w = w @ xs) \<and> silent xs"
proof (induction ts)
  case Nil
  show ?case by (simp add: silent_def header_warning_def open_failure_def)
next
  case (Cons t ts)
  then obtain xs where xs: "\<forall>w. fold DumpThreadEntry ts w = w @ xs" "silent xs" by blast
  have step: "fold DumpThreadEntry (t # ts) w = DumpThreadEntry t w @ xs" for w
    by (simp add: xs(1))
  show ?case
    unfolding step using xs(2) by (simp add: DumpThreadEntry_def silent_def header_warning_def open_failure_def)
qed

lemma DumpRegions_ok:
  assumes "unguarded_steps_succeed X"
  shows "\<exists>xs. (\<forall>w. DumpRegions X p w = (None, w @ xs)) \<and> silent xs"
proof -
  from assms obtain rs where rs: "RegionList X p = Inr rs"
    unfolding unguarded_steps_succeed_def by blast
  from fold_DumpRegion [of rs] obtain xs where
    xs: "\<forall>w. fold DumpRegion rs w = w @ xs" "silent xs" by blast
  show ?thesis
    using xs(2) by (simp add: DumpRegions_def rs xs(1) silent_def header_warning_def open_failure_def)
qed

lemma DumpThreads_ok:
  assumes "unguarded_steps_succeed X"
  shows "\<exists>xs. (\<forall>w. DumpThreads X pid w = (None, w @ xs)) \<and> silent xs"
proof -
  from assms obtain ts where ts: "ThreadList X pid = Inr ts"
    unfolding unguarded_steps_succeed_def by blast
  from fold_DumpThreadEntry [of ts] obtain xs where
    xs: "\<forall>w. fold DumpThreadEntry ts w = w @ xs" "silent xs" by blast
  show ?thesis
    using xs(2) by (simp add: DumpThreads_def ts xs(1) silent_def header_warning_def open_failure_def)
qed

lemma run_stages_ok:
  assumes "unguarded_steps_succeed X"
  shows "\<exists>xs. (\<forall>w. run_stages X sts p pf w = (None, w @ xs)) \<and> silent xs \<and>
           stages_run xs = map (\<lambda>st. (st, pf_Base pf)) sts"
proof (induction sts)
  case Nil
  show ?case by (simp add: silent_def header_warning_def open_failure_def)
next
  case (Cons st sts)
  from assms have ok: "stage X st p pf = None"
    by (simp add: unguarded_steps_succeed_def)
  from Cons obtain xs where
    xs: "\<forall>w. run_stages X sts p pf w = (None, w @ xs)" "silent xs"
    "stages_run xs = map (\<lambda>st. (st, pf_Base pf)) sts" by blast
  show ?case
    using xs(2,3)
    by (simp add: and_then_def run_stage_def ok xs(1) silent_def header_warning_def
        open_failure_def)
qed

lemma DumpPeFile_ok:
  assumes "unguarded_steps_succeed X"
  shows "\<exists>xs. (\<forall>w. DumpPeFile X p pf path w = (None, w @ xs)) \<and> silent xs \<and>
           stages_run xs = map (\<lambda>st. (st, pf_Base pf)) (pe_stages X)"
proof -
  from assms have ok: "stage X ClearWarnForCurrentFile p pf = None"
    by (simp add: unguarded_steps_succeed_def)
  define sts where "sts = [DumpHeaders, DumpSections, DumpOverlay, DumpTls, DumpExports,
      DumpImports, DumpBoundImports, DumpRelocations] @
      (if \<not> g_quiet X \<and> g_strings X then [DumpStrings] else []) @ [HandleWarnings]"
  from run_stages_ok [OF assms, of sts p pf] obtain xs where
    xs: "\<forall>w. run_stages X sts p pf w = (None, w @ xs)" "silent xs"
    "stages_run xs = map (\<lambda>st. (st, pf_Base pf)) sts" by blast
  have all: "pe_stages X = ClearWarnForCurrentFile # sts"
    by (simp add: pe_stages_def sts_def)
  have eq: "DumpPeFile X p pf path w =
      run_stages X sts p pf
        (if pf_Size pf > k100MB
         then ((w @ [StageRun ClearWarnForCurrentFile (pf_Base pf)]) @
            [Newline, Normal (if pf_Is64 pf then ''64-Bit File: Yes'' else ''64-Bit File: No'') 1])
            @ [Newline, Normal ''WARNING! File is over 100MB.'' 0]
         else (w @ [StageRun ClearWarnForCurrentFile (pf_Base pf)]) @
            [Newline, Normal (if pf_Is64 pf then ''64-Bit File: Yes'' else ''64-Bit File: No'') 1])"
    for w
    unfolding DumpPeFile_def and_then_def run_stage_def ok Let_def sts_def
    by (simp only: prod.case option.case)
  show ?thesis
    using xs(2,3)
    by (cases "pf_Size pf > k100MB")
       (simp_all add: eq xs(1) all silent_def header_warning_def open_failure_def)
qed

lemma DumpModules_loop_ok:
  assumes "unguarded_steps_succeed X"
  shows "\<exists>xs. (\<forall>w. DumpModules_loop X p ms w = (None, w @ xs)) \<and>
           visited_processes xs = [] \<and>
           visited_modules xs = map mod_Handle ms \<and>
           count_item header_warning xs = length (filter (invalid_headers X p) ms) \<and>
           count_item open_failure xs = 0 \<and>
           stages_run xs = concat (map (module_stages X p) ms) \<and>
           memory_dumps xs = []"
proof (induction ms)
  case Nil
  show ?case by simp
next
  case (Cons m ms)
  from assms obtain pf where pf: "PeFile_ctor X p (mod_Handle m) = Inr pf"
    unfolding unguarded_steps_succeed_def by blast
  from Cons obtain xs where
    xs: "\<forall>w. DumpModules_loop X p ms w = (None, w @ xs)"
    "visited_processes xs = []" "visited_modules xs = map mod_Handle ms"
    "count_item header_warning xs = length (filter (invalid_headers X p) ms)"
    "count_item open_failure xs = 0"
    "stages_run xs = concat (map (module_stages X p) ms)"
    "memory_dumps xs = []" by blast
  from DumpPeFile_ok [OF assms, of p pf "mod_Path m"] obtain ys where
    ys: "\<forall>w. DumpPeFile X p pf (mod_Path m) w = (None, w @ ys)" "silent ys"
    "stages_run ys = map (\<lambda>st. (st, pf_Base pf)) (pe_stages X)" by blast
  have inv: "invalid_headers X p m = (headers X p pf \<noteq> None)"
    by (simp add: invalid_headers_def pf)
  have due: "module_stages X p m =
      (if headers X p pf \<noteq> None then [] else map (\<lambda>st. (st, pf_Base pf)) (pe_stages X))"
    by (simp add: module_stages_def inv pf)
  show ?case
    using xs(2,3,4,5,6,7) ys(2,3)
    by (cases "headers X p pf")
       (simp_all add: pf Let_def and_then_def xs(1) ys(1) silent_def header_warning_def
          open_failure_def inv due)
qed

lemma DumpModules_ok:
  assumes "unguarded_steps_succeed X"
  shows "\<exists>xs. (\<forall>w. DumpModules X p w = (None, w @ xs)) \<and> visited_processes xs = [] \<and>
           count_item open_failure xs = 0 \<and> memory_dumps xs = []"
proof -
  from assms obtain ms where ms: "ModuleList X p = Inr ms"
    unfolding unguarded_steps_succeed_def by blast
  from DumpModules_loop_ok [OF assms, of p ms] obtain xs where
    xs: "\<forall>w. DumpModules_loop X p ms w = (None, w @ xs)" "visited_processes xs = []"
    "count_item open_failure xs = 0" "memory_dumps xs = []" by blast
  show ?thesis
    using xs(2,3,4) by (simp add: DumpModules_def ms xs(1) open_failure_def)
qed

lemma DumpProcessEntry_ok:
  assumes "unguarded_steps_succeed X"
  shows "\<exists>xs. (\<forall>w. DumpProcessEntry X e memonly w = (None, w @ xs)) \<and>
           visited_processes xs = [pe_Id e] \<and>
           count_item open_failure xs = (if cannot_open X e then 1 else 0) \<and>
           memory_dumps xs = opened X e"
proof -
  from DumpThreads_ok [OF assms, of "pe_Id e"] obtain ts where
    ts: "\<forall>w. DumpThreads X (pe_Id e) w = (None, w @ ts)" "silent ts" by blast
  show ?thesis
  proof (cases "Process_ctor X (pe_Id e)")
    case (Inl err)
    show ?thesis
      using ts(2)
      by (cases memonly)
         (simp_all add: DumpProcessEntry_def Let_def and_then_def Inl ts(1) silent_def
            header_warning_def open_failure_def cannot_open_def opened_def)
  next
    case (Inr p)
    from assms obtain native wow where
      n: "GetPathNative X p = Inr native" and wo: "IsWoW64 X p = Inr wow"
      and mem: "DumpMemory X p = None"
      unfolding unguarded_steps_succeed_def by blast
    from DumpModules_ok [OF assms, of p] obtain ms where
      ms: "\<forall>w. DumpModules X p w = (None, w @ ms)" "visited_processes ms = []"
      "count_item open_failure ms = 0" "memory_dumps ms = []" by blast
    from DumpRegions_ok [OF assms, of p] obtain rs where
      rs: "\<forall>w. DumpRegions X p w = (None, w @ rs)" "silent rs" by blast
    show ?thesis
      using ts(2) ms(2,3,4) rs(2)
      by (cases "GetPath X p"; cases memonly)
         (simp_all add: DumpProcessEntry_def Let_def and_then_def Inr n wo mem ts(1) ms(1) rs(1)
            silent_def header_warning_def open_failure_def cannot_open_def opened_def)
  qed
qed

lemma DumpProcesses_loop_ok:
  assumes "unguarded_steps_succeed X"
  shows "\<exists>xs. (\<forall>w. DumpProcesses_loop X memonly es w = (None, w @ xs)) \<and>
           visited_processes xs = map pe_Id es \<and>
           count_item open_failure xs = length (filter (cannot_open X) es) \<and>
           memory_dumps xs = concat (map (opened X) es)"
proof (induction es)
  case Nil
  show ?case by simp
next
  case (Cons e es)
  then obtain xs where
    xs: "\<forall>w. DumpProcesses_loop X memonly es w = (None, w @ xs)"
    "visited_processes xs = map pe_Id es"
    "count_item open_failure xs = length (filter (cannot_open X) es)"
    "memory_dumps xs = concat (map (opened X) es)" by blast
  from DumpProcessEntry_ok [OF assms, of e memonly] obtain ys where
    ys: "\<forall>w. DumpProcessEntry X e memonly w = (None, w @ ys)"
    "visited_processes ys = [pe_Id e]"
    "count_item open_failure ys = (if cannot_open X e then 1 else 0)"
    "memory_dumps ys = opened X e" by blast
  show ?case
    using xs(2,3,4) ys(2,3,4) by (simp add: and_then_def xs(1) ys(1))
qed

text \<open>
  Claim C9, as amended. When every step outside a \<^verbatim>\<open>try\<close> block succeeds, the guarded
  failures never end the batch. \<^verbatim>\<open>DumpModules\<close> visits every module of the process; a
  module whose DOS or NT headers cannot be constructed is reported with one warning and
  skipped, no stage of \<^verbatim>\<open>DumpPeFile\<close> running for it, and every other module gets all its
  stages, in order. \<^verbatim>\<open>DumpProcesses\<close> visits every process; a process that cannot be
  opened is reported once and skipped, \<^verbatim>\<open>DumpMemory\<close> running for the opened processes
  only. Both return without an exception.
\<close>

theorem batch_continues_past_guarded_failures:
  assumes "unguarded_steps_succeed X"
    and "ModuleList X p = Inr ms"
    and "ProcessList X = Inr es"
  shows "fst (DumpModules X p w) = None \<and>
         visited_modules (new_out w (snd (DumpModules X p w))) = map mod_Handle ms \<and>
         count_item header_warning (new_out w (snd (DumpModules X p w))) =
           length (filter (invalid_headers X p) ms) \<and>
         stages_run (new_out w (snd (DumpModules X p w))) =
           concat (map (module_stages X p) ms) \<and>
         (\<forall>m \<in> set ms. invalid_headers X p m \<longrightarrow> module_stages X p m = []) \<and>
         fst (DumpProcesses X memonly w) = None \<and>
         visited_processes (new_out w (snd (DumpProcesses X memonly w))) = map pe_Id es \<and>
         count_item open_failure (new_out w (snd (DumpProcesses X memonly w))) =
           length (filter (cannot_open X) es) \<and>
         memory_dumps (new_out w (snd (DumpProcesses X memonly w))) =
           concat (map (opened X) es) \<and>
         (\<forall>e \<in> set es. cannot_open X e \<longrightarrow> opened X e = [])"
proof -
  from DumpModules_loop_ok [OF assms(1), of p ms] obtain xs where
    xs: "\<forall>w. DumpModules_loop X p ms w = (None, w @ xs)"
    "visited_modules xs = map mod_Handle ms"
    "count_item header_warning xs = length (filter (invalid_headers X p) ms)"
    "stages_run xs = concat (map (module_stages X p) ms)" by blast
  from DumpProcesses_loop_ok [OF assms(1), of memonly es] obtain ys where
    ys: "\<forall>w. DumpProcesses_loop X memonly es w = (None, w @ ys)"
    "visited_processes ys = map pe_Id es"
    "count_item open_failure ys = length (filter (cannot_open X) es)"
    "memory_dumps ys = concat (map (opened X) es)" by blast
  have skip_m: "\<forall>m \<in> set ms. invalid_headers X p m \<longrightarrow> module_stages X p m = []"
    by (simp add: module_stages_def)
  have skip_e: "\<forall>e \<in> set es. cannot_open X e \<longrightarrow> opened X e = []"
    by (simp add: cannot_open_def opened_def split: sum.splits)
  have modules: "fst (DumpModules X p w) = None \<and>
         visited_modules (new_out w (snd (DumpModules X p w))) = map mod_Handle ms \<and>
         count_item header_warning (new_out w (snd (DumpModules X p w))) =
           length (filter (invalid_headers X p) ms) \<and>
         stages_run (new_out w (snd (DumpModules X p w))) =
           concat (map (module_stages X p) ms)"
    using xs(2,3,4)
    by (simp add: DumpModules_def assms(2) xs(1) new_out_def header_warning_def)
  have processes: "fst (DumpProcesses X memonly w) = None \<and>
         visited_processes (new_out w (snd (DumpProcesses X memonly w))) = map pe_Id es \<and>
         count_item open_failure (new_out w (snd (DumpProcesses X memonly w))) =
           length (filter (cannot_open X) es) \<and>
         memory_dumps (new_out w (snd (DumpProcesses X memonly w))) =
           concat (map (opened X) es)"
    using ys(2,3,4)
    by (simp add: DumpProcesses_def assms(3) ys(1) new_out_def open_failure_def)
  from modules skip_m processes skip_e show ?thesis by blast
qed

theorem batch_continues_past_guarded_failures_witness:
  "fst (DumpProcesses (sample_dump_env None) False []) = None \<and>
   visited_processes (new_out [] (snd (DumpProcesses (sample_dump_env None) False [])))
     = [8, 4, 12] \<and>
   count_item open_failure (new_out [] (snd (DumpProcesses (sample_dump_env None) False [])))
     = 1 \<and>
   memory_dumps (new_out [] (snd (DumpProcesses (sample_dump_env None) False [])))
     = [4, 12] \<and>
   fst (DumpModules (sample_dump_env None) 4 []) = None \<and>
   visited_modules (new_out [] (snd (DumpModules (sample_dump_env None) 4 [])))
     = [0x1000, 0x2000, 0x3000] \<and>
   count_item header_warning (new_out [] (snd (DumpModules (sample_dump_env None) 4 [])))
     = 1 \<and>
   stages_run (new_out [] (snd (DumpModules (sample_dump_env None) 4 [])))
     = map (\<lambda>st. (st, 0x1000)) (pe_stages (sample_dump_env None)) @
       map (\<lambda>st. (st, 0x3000)) (pe_stages (sample_dump_env None))"
proof -
  have ok: "unguarded_steps_succeed (sample_dump_env None)"
    by (auto simp add: unguarded_steps_succeed_def sample_dump_env_def)
  have ml: "ModuleList (sample_dump_env None) 4 = Inr sample_modules"
    by (simp add: sample_dump_env_def)
  have pl: "ProcessList (sample_dump_env None) = Inr sample_processes"
    by (simp add: sample_dump_env_def)
  have m: "filter (invalid_headers (sample_dump_env None) 4) sample_modules =
      [\<lparr>mod_Handle = 0x2000, mod_Size = 0x500, mod_Name = ''b.dll'', mod_Path = ''C:/b.dll''\<rparr>]"
    by (simp add: invalid_headers_def sample_dump_env_def sample_modules_def)
  have e: "filter (cannot_open (sample_dump_env None)) sample_processes =
      [\<lparr>pe_Id = 8, pe_Threads = 1, pe_ParentId = 0, pe_Priority = 8, pe_Name = ''System''\<rparr>]"
    by (simp add: cannot_open_def sample_dump_env_def sample_processes_def)
  have st: "concat (map (module_stages (sample_dump_env None) 4) sample_modules) =
      map (\<lambda>st. (st, 0x1000)) (pe_stages (sample_dump_env None)) @
      map (\<lambda>st. (st, 0x3000)) (pe_stages (sample_dump_env None))"
    by (simp add: module_stages_def invalid_headers_def sample_dump_env_def sample_modules_def)
  have op: "concat (map (opened (sample_dump_env None)) sample_processes) = [4, 12]"
    by (simp add: opened_def sample_dump_env_def sample_processes_def)
  from batch_continues_past_guarded_failures [OF ok ml pl, of "[]" False]
  show ?thesis
    unfolding m e st op by (simp add: sample_modules_def sample_processes_def)
qed

text \<open>
  Claim C9 as stated fails for a failure outside the two \<^verbatim>\<open>try\<close> blocks. Here
  \<^verbatim>\<open>DumpHeaders\<close> throws the guard's bad-protection error for the first module of process
  4: the exception leaves \<^verbatim>\<open>DumpModules\<close>, \<^verbatim>\<open>DumpProcessEntry\<close> and \<^verbatim>\<open>DumpProcesses\<close>;
  the two other modules and process 12 are never visited.
\<close>

theorem unguarded_failure_aborts_batch:
  "fst (DumpProcesses (sample_dump_env (Some 0x1000)) False []) = Some bad_protection_error \<and>
   visited_processes (snd (DumpProcesses (sample_dump_env (Some 0x1000)) False [])) = [8, 4] \<and>
   visited_modules (snd (DumpProcesses (sample_dump_env (Some 0x1000)) False [])) = [0x1000]"
  by (simp add: DumpProcesses_def DumpProcessEntry_def DumpModules_def DumpPeFile_def
      DumpThreads_def DumpRegions_def run_stage_def and_then_def Let_def
      sample_dump_env_def sample_processes_def sample_modules_def k100MB_def)

end
